theory Spec2Isabelle
  imports Main "HOL-Library.Word"
begin

section \<open>The forward plugin's setup (plugin/forward/setup.go)\<close>

text \<open>
  The theory embeds \<^verbatim>\<open>setup\<close>, \<^verbatim>\<open>parseForward\<close>, \<^verbatim>\<open>parseStanza\<close> and
  \<^verbatim>\<open>parseBlock\<close> of \<^verbatim>\<open>plugin/forward/setup.go\<close>. Go's \<^verbatim>\<open>int\<close> is taken to be 64 bits
  wide, \<^verbatim>\<open>time.Duration\<close> is its \<^verbatim>\<open>int64\<close> count of nanoseconds, and \<^verbatim>\<open>uint32\<close> is a
  \<open>32 word\<close>. Go strings and byte slices are \<open>string\<close> (lists of bytes). The function
  \<^verbatim>\<open>setup\<close> is written \<open>setup_forward\<close> and the constant \<^verbatim>\<open>max\<close> is written \<open>max'\<close>.
\<close>

subsection \<open>Errors\<close>

text \<open>
  Every \<^verbatim>\<open>error\<close> value the setup code builds is a constructor that keeps the arguments
  of the format string instead of the formatted text. \<open>External\<close> stands for an error
  made by a callee outside this file (\<^verbatim>\<open>os.Open\<close>, \<^verbatim>\<open>time.ParseDuration\<close>,
  \<^verbatim>\<open>parse.HostPortOrFile\<close>, \<^verbatim>\<open>pkgtls.NewTLSConfigFromArgs\<close>). \<open>Panic\<close> is not an error
  value of the program: it marks a run that stops in a run-time panic.
\<close>

datatype error =
    ErrArg string
  | NumError string
  | External string
  | ErrorsNew string
  | UnsupportedProtocol string string
  | MaxFailsNegative int
  | HealthCheckNegative int
  | HealthCheckUnknownOption string
  | ExpireNegative int
  | UnknownPolicy string
  | MaxConcurrentNegative int
  | RetryFailedNegative int
  | RetryFailedTooLarge int
  | UnknownProperty string
  | TooManyTOs int int
  | PluginError string error
  | Panic string

subsection \<open>The token dispenser of the controller\<close>

text \<open>
  \<^verbatim>\<open>caddy.Controller\<close> embeds the \<^verbatim>\<open>caddyfile.Dispenser\<close> of caddy v1.0.1 (the version
  \<^verbatim>\<open>go.mod\<close> requires): a slice of tokens, a cursor that starts at \<open>-1\<close>, and the block
  nesting depth. The methods below are the ones \<^verbatim>\<open>setup.go\<close> calls, each returning its
  result together with the dispenser it leaves behind.
\<close>

record token =
  File :: string
  Line :: int
  Text :: string

record dispenser =
  tokens :: "token list"
  cursor :: int
  nesting :: int

definition Val :: "dispenser \<Rightarrow> string" where
  "Val d =
     (if cursor d < 0 \<or> cursor d \<ge> int (length (tokens d)) then ''''
      else Text (tokens d ! nat (cursor d)))"

definition Next :: "dispenser \<Rightarrow> bool \<times> dispenser" where
  "Next d =
     (if cursor d < int (length (tokens d)) - 1
      then (True, d\<lparr>cursor := cursor d + 1\<rparr>)
      else (False, d))"

definition numLineBreaks :: "dispenser \<Rightarrow> int \<Rightarrow> int" where
  "numLineBreaks d tknIdx =
     (if tknIdx < 0 \<or> tknIdx \<ge> int (length (tokens d)) then 0
      else int (length (filter (\<lambda>b. b = CHR 0x0A) (Text (tokens d ! nat tknIdx)))))"

definition NextArg :: "dispenser \<Rightarrow> bool \<times> dispenser" where
  "NextArg d =
     (if cursor d < 0 then (True, d\<lparr>cursor := cursor d + 1\<rparr>)
      else if cursor d \<ge> int (length (tokens d)) then (False, d)
      else if cursor d < int (length (tokens d)) - 1
            \<and> File (tokens d ! nat (cursor d)) = File (tokens d ! nat (cursor d + 1))
            \<and> Line (tokens d ! nat (cursor d)) + numLineBreaks d (cursor d)
                = Line (tokens d ! nat (cursor d + 1))
      then (True, d\<lparr>cursor := cursor d + 1\<rparr>)
      else (False, d))"

text \<open>
  \<^verbatim>\<open>RemainingArgs\<close> collects the tokens left on the line; an opening brace ends the
  arguments and is not loaded.
\<close>

function RemainingArgs :: "dispenser \<Rightarrow> string list \<times> dispenser" where
  "RemainingArgs d =
     (if fst (NextArg d) then
        (if Val (snd (NextArg d)) = ''{''
         then ([], (snd (NextArg d))\<lparr>cursor := cursor (snd (NextArg d)) - 1\<rparr>)
         else (case RemainingArgs (snd (NextArg d)) of
                 (args, d') \<Rightarrow> (Val (snd (NextArg d)) # args, d')))
      else ([], snd (NextArg d)))"
  by pat_completeness auto
termination
  by (relation "measure (\<lambda>d. nat (int (length (tokens d)) - cursor d))")
     (auto simp: NextArg_def split: if_splits)

declare RemainingArgs.simps [simp del]

text \<open>\<^verbatim>\<open>c.Args(&f.from)\<close>: one target; the value is assigned only when an argument is there.\<close>

definition Args1 :: "dispenser \<Rightarrow> string \<Rightarrow> bool \<times> string \<times> dispenser" where
  "Args1 d target =
     (case NextArg d of
        (True, d') \<Rightarrow> (True, Val d', d')
      | (False, d') \<Rightarrow> (False, target, d'))"

definition NextBlock :: "dispenser \<Rightarrow> bool \<times> dispenser" where
  "NextBlock d =
     (if nesting d > 0 then
        (let d1 = snd (Next d) in
         if Val d1 = ''}'' then (False, d1\<lparr>nesting := nesting d1 - 1\<rparr>)
         else (True, d1))
      else
        (case NextArg d of
           (False, d1) \<Rightarrow> (False, d1)
         | (True, d1) \<Rightarrow>
             if Val d1 \<noteq> ''{'' then (False, d1\<lparr>cursor := cursor d1 - 1\<rparr>)
             else
               (let d2 = snd (Next d1) in
                if Val d2 = ''}'' then (False, d2)
                else (True, d2\<lparr>nesting := nesting d2 + 1\<rparr>))))"

definition ArgErr :: "dispenser \<Rightarrow> error" where
  "ArgErr d = ErrArg (Val d)"

subsection \<open>Library functions\<close>

text \<open>
  \<^verbatim>\<open>strconv.Atoi\<close> on a 64-bit \<^verbatim>\<open>int\<close>: an optional sign, then at least one decimal digit
  and nothing else, and a value between \<open>-2^63\<close> and \<open>2^63 - 1\<close>; every other string is
  a \<^verbatim>\<open>*NumError\<close>.
\<close>

definition isDigit :: "char \<Rightarrow> bool" where
  "isDigit ch = (48 \<le> (of_char ch :: int) \<and> (of_char ch :: int) \<le> 57)"

fun digitsVal :: "string \<Rightarrow> int \<Rightarrow> int option" where
  "digitsVal [] n = Some n"
| "digitsVal (ch # s) n =
     (if isDigit ch then digitsVal s (n * 10 + (of_char ch - 48)) else None)"

definition Atoi :: "string \<Rightarrow> error + int" where
  "Atoi s0 =
     (let neg = (s0 \<noteq> [] \<and> hd s0 = CHR ''-'');
          s = (if s0 \<noteq> [] \<and> (hd s0 = CHR ''-'' \<or> hd s0 = CHR ''+'') then tl s0 else s0)
      in if s = [] then Inl (NumError s0)
         else case digitsVal s 0 of
                None \<Rightarrow> Inl (NumError s0)
              | Some un \<Rightarrow>
                  if \<not> neg \<and> un \<ge> 2 ^ 63 then Inl (NumError s0)
                  else if neg \<and> un > 2 ^ 63 then Inl (NumError s0)
                  else Inr (if neg then - un else un))"

text \<open>\<^verbatim>\<open>strings.Split(s, "/")\<close>: the pieces between the separators, one more than there
  are separators.\<close>

fun Split :: "string \<Rightarrow> char \<Rightarrow> string list" where
  "Split [] sep = [[]]"
| "Split (ch # s) sep =
     (if ch = sep then [] # Split s sep
      else (case Split s sep of x # xs \<Rightarrow> (ch # x) # xs | [] \<Rightarrow> [[ch]]))"

text \<open>\<^verbatim>\<open>bytes.Index(line, []byte{'#'})\<close>: the position of the first such byte, or \<open>-1\<close>.\<close>

fun Index :: "string \<Rightarrow> char \<Rightarrow> int" where
  "Index [] sep = -1"
| "Index (ch # s) sep =
     (if ch = sep then 0 else (let i = Index s sep in if i < 0 then -1 else i + 1))"

subsection \<open>The data of the plugin\<close>

text \<open>
  \<^verbatim>\<open>*tls.Config\<close>: only \<^verbatim>\<open>ServerName\<close> is read or written by the setup code; the rest of
  the configuration (certificates, roots) is kept as one opaque field.
\<close>

record tls_config =
  ServerName :: string
  material :: "string list"

text \<open>
  Modelled from the spec: the type \<^verbatim>\<open>Proxy\<close> and its setters (\<^verbatim>\<open>proxy.go\<close> is not among the
  sources). An upstream target has a network address, a transport kind, TLS parameters, a
  connection idle-expiry duration, and its probes carry a recursion-desired flag. Each
  setter stores its argument in the attribute it names and changes nothing else.
\<close>

record Proxy =
  addr :: string
  trans :: string
  proxyTLS :: "tls_config option"
  proxyExpire :: int
  recursionDesired :: bool

definition SetTLSConfig :: "tls_config \<Rightarrow> Proxy \<Rightarrow> Proxy" where
  "SetTLSConfig cfg p = p\<lparr>proxyTLS := Some cfg\<rparr>"

definition SetExpire :: "int \<Rightarrow> Proxy \<Rightarrow> Proxy" where
  "SetExpire expire p = p\<lparr>proxyExpire := expire\<rparr>"

definition SetRecursionDesired :: "bool \<Rightarrow> Proxy \<Rightarrow> Proxy" where
  "SetRecursionDesired rd p = p\<lparr>recursionDesired := rd\<rparr>"

datatype Policy = Random | RoundRobin | Sequential

record options =
  hcRecursionDesired :: bool
  forceTCP :: bool
  preferUDP :: bool

text \<open>
  The fields of \<^verbatim>\<open>Forward\<close> that the setup code touches (the type itself is declared in
  \<^verbatim>\<open>forward.go\<close>). \<^verbatim>\<open>from\<close> and \<^verbatim>\<open>p\<close> are written \<open>from'\<close> and \<open>p'\<close>.
\<close>

record Forward =
  proxies :: "Proxy list"
  hcInterval :: int
  from' :: string
  ignored :: "string list"
  maxfails :: "32 word"
  opts :: options
  tlsConfig :: tls_config
  tlsServerName :: string
  expire :: int
  p' :: Policy
  ErrLimitExceeded :: "error option"
  maxConcurrent :: int
  maxFailedTries :: int
  index :: int

text \<open>
  Modelled from the spec: \<^verbatim>\<open>Forward.Len\<close> (declared in \<^verbatim>\<open>forward.go\<close>, not among the
  sources): the number of configured destination targets.
\<close>

definition Len :: "Forward \<Rightarrow> int" where
  "Len f = int (length (proxies f))"

text \<open>Maximum number of upstreams (the constant \<^verbatim>\<open>max\<close>).\<close>

definition max' :: int where
  "max' = 15"

text \<open>
  Modelled from the spec: the constant \<^verbatim>\<open>transport.TLS\<close> of \<^verbatim>\<open>plugin/pkg/transport\<close>
  (not among the sources), the transport tag of TLS.
\<close>

definition transport_TLS :: string where
  "transport_TLS = ''tls''"

text \<open>
  What the setup code calls and this file does not define is a parameter:
  \<^item> \<open>Normalize\<close>: \<^verbatim>\<open>plugin.Host(s).Normalize()\<close>;
  \<^item> \<open>HostPortOrFile\<close>: \<^verbatim>\<open>parse.HostPortOrFile(to...)\<close>;
  \<^item> \<open>Transport\<close>: \<^verbatim>\<open>parse.Transport(host)\<close>, the transport tag and the rest of the host;
  \<^item> \<open>NewProxy\<close>: \<^verbatim>\<open>NewProxy(h, trans)\<close>;
  \<^item> \<open>NewTLSConfigFromArgs\<close>: \<^verbatim>\<open>pkgtls.NewTLSConfigFromArgs(args...)\<close>;
  \<^item> \<open>ParseDuration\<close>: \<^verbatim>\<open>time.ParseDuration\<close>, in nanoseconds;
  \<^item> \<open>Open\<close>: \<^verbatim>\<open>os.Open\<close> followed by \<^verbatim>\<open>bufio.NewScanner\<close>: an error, or the lines
    that \<^verbatim>\<open>scanner.Scan()\<close> yields one after the other;
  \<^item> \<open>Fields\<close>: \<^verbatim>\<open>bytes.Fields\<close>;
  \<^item> \<open>New\<close>: the \<^verbatim>\<open>Forward\<close> that \<^verbatim>\<open>New()\<close> returns.
\<close>

record env =
  Normalize :: "string \<Rightarrow> string"
  HostPortOrFile :: "string list \<Rightarrow> error + string list"
  Transport :: "string \<Rightarrow> string \<times> string"
  NewProxy :: "string \<Rightarrow> string \<Rightarrow> Proxy"
  NewTLSConfigFromArgs :: "string list \<Rightarrow> error + tls_config"
  ParseDuration :: "string \<Rightarrow> error + int"
  Open :: "string \<Rightarrow> error + string list"
  Fields :: "string \<Rightarrow> string list"
  New :: Forward

subsection \<open>parseBlock\<close>

text \<open>The scanner loop of \<^verbatim>\<open>except_file\<close>, one line at a time.\<close>

fun scanLines :: "env \<Rightarrow> string list \<Rightarrow> Forward \<Rightarrow> Forward" where
  "scanLines E [] f = f"
| "scanLines E (line0 # rest) f =
     (let i = Index line0 (CHR ''#'');
          line = (if i \<ge> 0 then take (nat i) line0 else line0);
          fields = Fields E line
      in if length fields \<noteq> 1 then scanLines E rest f
         else
           (let splits = Split (fields ! 0) (CHR ''/'') in
            if length splits = 1
            then scanLines E rest (f\<lparr>ignored := ignored f @ [Normalize E (splits ! 0)]\<rparr>)
            else if length splits = 3
            then scanLines E rest (f\<lparr>ignored := ignored f @ [Normalize E (splits ! 1)]\<rparr>)
            else scanLines E rest f))"

text \<open>The loop over the options that follow the duration of \<^verbatim>\<open>health_check\<close>.\<close>

function hcOptsLoop :: "dispenser \<Rightarrow> Forward \<Rightarrow> error + dispenser \<times> Forward" where
  "hcOptsLoop c f =
     (if fst (NextArg c) then
        (if Val (snd (NextArg c)) = ''no_rec''
         then hcOptsLoop (snd (NextArg c)) (f\<lparr>opts := (opts f)\<lparr>hcRecursionDesired := False\<rparr>\<rparr>)
         else Inl (HealthCheckUnknownOption (Val (snd (NextArg c)))))
      else Inr (snd (NextArg c), f))"
  by pat_completeness auto
termination
  by (relation "measure (\<lambda>(c, f). nat (int (length (tokens c)) - cursor c))")
     (auto simp: NextArg_def split: if_splits)

declare hcOptsLoop.simps [simp del]

text \<open>
  \<^verbatim>\<open>parseBlock\<close>: the \<^verbatim>\<open>switch\<close> on \<^verbatim>\<open>c.Val()\<close>, case by case in the order of the source.
  The result is the error, or the controller and the \<^verbatim>\<open>Forward\<close> as the call leaves them
  (on an error the caller drops both).
\<close>

definition parseBlock :: "env \<Rightarrow> dispenser \<Rightarrow> Forward \<Rightarrow> error + dispenser \<times> Forward" where
  "parseBlock E c f =
     (if Val c = ''except'' then
        (case RemainingArgs c of (ignore, c1) \<Rightarrow>
           if length ignore = 0 then Inl (ArgErr c1)
           else Inr (c1, f\<lparr>ignored := ignored f @ map (Normalize E) ignore\<rparr>))
      else if Val c = ''except_file'' then
        (case RemainingArgs c of (args, c1) \<Rightarrow>
           if length args \<noteq> 1 then Inl (ArgErr c1)
           else (case Open E (args ! 0) of
                   Inl err \<Rightarrow> Inl err
                 | Inr scanned \<Rightarrow> Inr (c1, scanLines E scanned f)))
      else if Val c = ''max_fails'' then
        (case NextArg c of
           (False, c1) \<Rightarrow> Inl (ArgErr c1)
         | (True, c1) \<Rightarrow>
             (case Atoi (Val c1) of
                Inl err \<Rightarrow> Inl err
              | Inr n \<Rightarrow>
                  if n < 0 then Inl (MaxFailsNegative n)
                  else Inr (c1, f\<lparr>maxfails := word_of_int n\<rparr>)))
      else if Val c = ''health_check'' then
        (case NextArg c of
           (False, c1) \<Rightarrow> Inl (ArgErr c1)
         | (True, c1) \<Rightarrow>
             (case ParseDuration E (Val c1) of
                Inl err \<Rightarrow> Inl err
              | Inr dur \<Rightarrow>
                  if dur < 0 then Inl (HealthCheckNegative dur)
                  else hcOptsLoop c1 (f\<lparr>hcInterval := dur\<rparr>)))
      else if Val c = ''force_tcp'' then
        (case NextArg c of
           (True, c1) \<Rightarrow> Inl (ArgErr c1)
         | (False, c1) \<Rightarrow> Inr (c1, f\<lparr>opts := (opts f)\<lparr>forceTCP := True\<rparr>\<rparr>))
      else if Val c = ''prefer_udp'' then
        (case NextArg c of
           (True, c1) \<Rightarrow> Inl (ArgErr c1)
         | (False, c1) \<Rightarrow> Inr (c1, f\<lparr>opts := (opts f)\<lparr>preferUDP := True\<rparr>\<rparr>))
      else if Val c = ''tls'' then
        (case RemainingArgs c of (args, c1) \<Rightarrow>
           if length args > 3 then Inl (ArgErr c1)
           else (case NewTLSConfigFromArgs E args of
                   Inl err \<Rightarrow> Inl err
                 | Inr cfg \<Rightarrow> Inr (c1, f\<lparr>tlsConfig := cfg\<rparr>)))
      else if Val c = ''tls_servername'' then
        (case NextArg c of
           (False, c1) \<Rightarrow> Inl (ArgErr c1)
         | (True, c1) \<Rightarrow> Inr (c1, f\<lparr>tlsServerName := Val c1\<rparr>))
      else if Val c = ''expire'' then
        (case NextArg c of
           (False, c1) \<Rightarrow> Inl (ArgErr c1)
         | (True, c1) \<Rightarrow>
             (case ParseDuration E (Val c1) of
                Inl err \<Rightarrow> Inl err
              | Inr dur \<Rightarrow>
                  if dur < 0 then Inl (ExpireNegative dur)
                  else Inr (c1, f\<lparr>expire := dur\<rparr>)))
      else if Val c = ''policy'' then
        (case NextArg c of
           (False, c1) \<Rightarrow> Inl (ArgErr c1)
         | (True, c1) \<Rightarrow>
             if Val c1 = ''random'' then Inr (c1, f\<lparr>p' := Random\<rparr>)
             else if Val c1 = ''round_robin'' then Inr (c1, f\<lparr>p' := RoundRobin\<rparr>)
             else if Val c1 = ''sequential'' then Inr (c1, f\<lparr>p' := Sequential\<rparr>)
             else Inl (UnknownPolicy (Val c1)))
      else if Val c = ''max_concurrent'' then
        (case NextArg c of
           (False, c1) \<Rightarrow> Inl (ArgErr c1)
         | (True, c1) \<Rightarrow>
             (case Atoi (Val c1) of
                Inl err \<Rightarrow> Inl err
              | Inr n \<Rightarrow>
                  if n < 0 then Inl (MaxConcurrentNegative n)
                  else Inr (c1, f\<lparr>ErrLimitExceeded :=
                                     Some (ErrorsNew (''concurrent queries exceeded maximum '' @ Val c1)),
                                   maxConcurrent := n\<rparr>)))
      else if Val c = ''retry_failed'' then
        (case NextArg c of
           (False, c1) \<Rightarrow> Inl (ArgErr c1)
         | (True, c1) \<Rightarrow>
             (case Atoi (Val c1) of
                Inl err \<Rightarrow> Inl err
              | Inr n \<Rightarrow>
                  if n < 0 then Inl (RetryFailedNegative n)
                  else if n > int (length (proxies f))
                  then Inl (RetryFailedTooLarge (int (length (proxies f))))
                  else Inr (c1, f\<lparr>maxFailedTries := n\<rparr>)))
      else Inl (UnknownProperty (Val c)))"

subsection \<open>parseStanza\<close>

text \<open>
  The loop over \<^verbatim>\<open>toHosts\<close>: it stops at the first host whose transport is not allowed,
  and otherwise appends one proxy per host and records the host's transport.
\<close>

definition allowedTrans :: "string \<Rightarrow> bool" where
  "allowedTrans t = (t = ''dns'' \<or> t = ''tls'')"

fun makeProxies :: "env \<Rightarrow> string list \<Rightarrow> Forward \<Rightarrow> string list
                     \<Rightarrow> error + Forward \<times> string list" where
  "makeProxies E [] f transports = Inr (f, transports)"
| "makeProxies E (host # rest) f transports =
     (case Transport E host of (tr, h) \<Rightarrow>
        if \<not> allowedTrans tr then Inl (UnsupportedProtocol tr host)
        else makeProxies E rest (f\<lparr>proxies := proxies f @ [NewProxy E h tr]\<rparr>)
               (transports @ [tr]))"

text \<open>
  The loop \<^verbatim>\<open>for c.NextBlock() { parseBlock(c, f) }\<close>. Nothing bounds it when the tokens
  end inside a block, so it is a partial function: \<open>None\<close> is a run that never returns.
\<close>

partial_function (option) parseBlocks ::
  "env \<Rightarrow> dispenser \<Rightarrow> Forward \<Rightarrow> (error + dispenser \<times> Forward) option" where
  "parseBlocks E c f =
     (if fst (NextBlock c) then
        (case parseBlock E (snd (NextBlock c)) f of
           Inl err \<Rightarrow> Some (Inl err)
         | Inr (c1, f1) \<Rightarrow> parseBlocks E c1 f1)
      else Some (Inr (snd (NextBlock c), f)))"

declare parseBlocks.simps [code]

text \<open>
  The last loop of \<^verbatim>\<open>parseStanza\<close>, over the indices of \<^verbatim>\<open>f.proxies\<close>. Reading
  \<^verbatim>\<open>transports[i]\<close> beyond the end of \<^verbatim>\<open>transports\<close> panics.
\<close>

definition configureProxy :: "Forward \<Rightarrow> string \<Rightarrow> Proxy \<Rightarrow> Proxy" where
  "configureProxy f tr p =
     SetRecursionDesired (hcRecursionDesired (opts f))
       (SetExpire (expire f)
          (if tr = transport_TLS then SetTLSConfig (tlsConfig f) p else p))"

definition configureProxies :: "Forward \<Rightarrow> string list \<Rightarrow> error + Forward" where
  "configureProxies f transports =
     (if length transports < length (proxies f)
      then Inl (Panic ''index out of range'')
      else Inr (f\<lparr>proxies := map (\<lambda>i. configureProxy f (transports ! i) (proxies f ! i))
                                [0 ..< length (proxies f)]\<rparr>))"

definition parseStanza :: "env \<Rightarrow> dispenser \<Rightarrow> (error + dispenser \<times> Forward) option" where
  "parseStanza E c =
     (let f = New E in
      case Args1 c (from' f) of
        (False, _, c1) \<Rightarrow> Some (Inl (ArgErr c1))
      | (True, v, c1) \<Rightarrow>
          (let f = f\<lparr>from' := Normalize E v\<rparr> in
           case RemainingArgs c1 of (to, c2) \<Rightarrow>
             if length to = 0 then Some (Inl (ArgErr c2))
             else
               (case HostPortOrFile E to of
                  Inl err \<Rightarrow> Some (Inl err)
                | Inr toHosts \<Rightarrow>
                    (case makeProxies E toHosts f [] of
                       Inl err \<Rightarrow> Some (Inl err)
                     | Inr (f, transports) \<Rightarrow>
                         (case parseBlocks E c2 f of
                            None \<Rightarrow> None
                          | Some (Inl err) \<Rightarrow> Some (Inl err)
                          | Some (Inr (c3, f)) \<Rightarrow>
                              (let f = (if tlsServerName f \<noteq> []
                                        then f\<lparr>tlsConfig := (tlsConfig f)\<lparr>ServerName := tlsServerName f\<rparr>\<rparr>
                                        else f)
                               in case configureProxies f transports of
                                    Inl err \<Rightarrow> Some (Inl err)
                                  | Inr f \<Rightarrow> Some (Inr (c3, f))))))))"

subsection \<open>parseForward and setup\<close>

partial_function (option) parseForward_loop ::
  "env \<Rightarrow> dispenser \<Rightarrow> Forward list \<Rightarrow> int \<Rightarrow> (error + Forward list) option" where
  "parseForward_loop E c fs i =
     (if fst (Next c) then
        (case parseStanza E (snd (Next c)) of
           None \<Rightarrow> None
         | Some (Inl err) \<Rightarrow> Some (Inl err)
         | Some (Inr (c1, f)) \<Rightarrow> parseForward_loop E c1 (fs @ [f\<lparr>index := i\<rparr>]) (i + 1))
      else Some (Inr fs))"

declare parseForward_loop.simps [code]

definition parseForward :: "env \<Rightarrow> dispenser \<Rightarrow> (error + Forward list) option" where
  "parseForward E c = parseForward_loop E c [] 0"

text \<open>
  What \<^verbatim>\<open>setup\<close> leaves in the controller and in the server configuration: the plugin
  constructors added with \<^verbatim>\<open>AddPlugin\<close> and the hooks given to \<^verbatim>\<open>OnStartup\<close> and
  \<^verbatim>\<open>OnShutdown\<close>, each closure standing for the \<^verbatim>\<open>Forward\<close> it has captured.
\<close>

record registrations =
  plugins :: "Forward list"
  startupHooks :: "Forward list"
  shutdownHooks :: "Forward list"

definition plugin_Error :: "string \<Rightarrow> error \<Rightarrow> error" where
  "plugin_Error name err = PluginError name err"

fun setup_loop :: "Forward list \<Rightarrow> registrations \<Rightarrow> error option \<times> registrations" where
  "setup_loop [] r = (None, r)"
| "setup_loop (f # fs) r =
     (if Len f > max'
      then (Some (plugin_Error ''forward'' (TooManyTOs max' (Len f))), r)
      else setup_loop fs
             (r\<lparr>plugins := plugins r @ [f],
                startupHooks := startupHooks r @ [f],
                shutdownHooks := shutdownHooks r @ [f]\<rparr>))"

definition setup_forward :: "env \<Rightarrow> dispenser \<Rightarrow> registrations
                      \<Rightarrow> (error option \<times> registrations) option" where
  "setup_forward E c r =
     (case parseForward E c of
        None \<Rightarrow> None
      | Some (Inl err) \<Rightarrow> Some (Some (plugin_Error ''forward'' err), r)
      | Some (Inr fs) \<Rightarrow> Some (setup_loop fs r))"

subsection \<open>A concrete environment and concrete configurations\<close>

text \<open>
  The parameters, fixed for the runs on concrete input: \<open>exTransport\<close> splits a
  \<^verbatim>\<open>scheme://\<close> prefix off the host (plain DNS without one), \<open>exFields\<close> splits at ASCII
  white space, \<open>exNormalize\<close> ends a name with a dot, \<open>exParseDuration\<close> knows whole
  seconds written \<^verbatim>\<open>Ns\<close>, and the file system holds one file.
\<close>

definition hasPrefix :: "string \<Rightarrow> string \<Rightarrow> bool" where
  "hasPrefix s pre = (take (length pre) s = pre)"

definition exTransport :: "string \<Rightarrow> string \<times> string" where
  "exTransport s =
     (if hasPrefix s ''tls://'' then (''tls'', drop 6 s)
      else if hasPrefix s ''dns://'' then (''dns'', drop 6 s)
      else if hasPrefix s ''grpc://'' then (''grpc'', drop 7 s)
      else if hasPrefix s ''https://'' then (''https'', drop 8 s)
      else (''dns'', s))"

definition isSpace :: "char \<Rightarrow> bool" where
  "isSpace ch = (ch = CHR '' '' \<or> ch = CHR 0x09 \<or> ch = CHR 0x0A \<or> ch = CHR 0x0B
                 \<or> ch = CHR 0x0C \<or> ch = CHR 0x0D)"

fun exFields_from :: "string \<Rightarrow> string \<Rightarrow> string list" where
  "exFields_from [] cur = (if cur = [] then [] else [cur])"
| "exFields_from (ch # s) cur =
     (if isSpace ch then (if cur = [] then exFields_from s [] else cur # exFields_from s [])
      else exFields_from s (cur @ [ch]))"

definition exFields :: "string \<Rightarrow> string list" where
  "exFields s = exFields_from s []"

definition exNormalize :: "string \<Rightarrow> string" where
  "exNormalize s = (if s \<noteq> [] \<and> last s = CHR ''.'' then s else s @ ''.'')"

definition exParseDuration :: "string \<Rightarrow> error + int" where
  "exParseDuration s =
     (if s \<noteq> [] \<and> last s = CHR ''s'' then
        (case Atoi (butlast s) of
           Inl err \<Rightarrow> Inl (External ''time: invalid duration'')
         | Inr n \<Rightarrow> Inr (n * 1000000000))
      else Inl (External ''time: invalid duration''))"

definition exOpen :: "string \<Rightarrow> error + string list" where
  "exOpen name =
     (if name = ''except.txt''
      then Inr [''# names kept local'', ''a.example  # first'', ''lbl/b.example/IN'',
                ''c.example d.example'', ''x/y'', '''']
      else Inl (External ''open: no such file or directory''))"

definition exNew :: Forward where
  "exNew = \<lparr>proxies = [], hcInterval = 500000000, from' = ''.'', ignored = [],
            maxfails = 2, opts = \<lparr>hcRecursionDesired = True, forceTCP = False, preferUDP = False\<rparr>,
            tlsConfig = \<lparr>ServerName = [], material = []\<rparr>, tlsServerName = [],
            expire = 10000000000, p' = Random, ErrLimitExceeded = None,
            maxConcurrent = 0, maxFailedTries = 0, index = 0\<rparr>"

definition exEnv :: env where
  "exEnv = \<lparr>Normalize = exNormalize,
            HostPortOrFile = (\<lambda>to. Inr to),
            Transport = exTransport,
            NewProxy = (\<lambda>h tr. \<lparr>addr = h, trans = tr, proxyTLS = None,
                                 proxyExpire = 10000000000, recursionDesired = True\<rparr>),
            NewTLSConfigFromArgs = (\<lambda>args. Inr \<lparr>ServerName = [], material = args\<rparr>),
            ParseDuration = exParseDuration,
            Open = exOpen,
            Fields = exFields,
            New = exNew\<rparr>"

text \<open>A token of the file \<^verbatim>\<open>Corefile\<close>, and a controller in front of its first token.\<close>

definition tk :: "int \<Rightarrow> string \<Rightarrow> token" where
  "tk l s = \<lparr>File = ''Corefile'', Line = l, Text = s\<rparr>"

definition controller :: "token list \<Rightarrow> dispenser" where
  "controller ts = \<lparr>tokens = ts, cursor = -1, nesting = 0\<rparr>"

definition noRegistrations :: registrations where
  "noRegistrations = \<lparr>plugins = [], startupHooks = [], shutdownHooks = []\<rparr>"

text \<open>
  A controller inside a block, on the directive \<open>name\<close> that starts line 2 with \<open>args\<close>
  after it on the same line; the block closes on line 3.
\<close>

definition atDirective :: "string \<Rightarrow> string list \<Rightarrow> dispenser" where
  "atDirective name args =
     \<lparr>tokens = tk 2 name # map (tk 2) args @ [tk 3 ''}''], cursor = 0, nesting = 1\<rparr>"

definition fTwo :: Forward where
  "fTwo = exNew\<lparr>proxies := [NewProxy exEnv ''10.0.0.1:53'' ''dns'',
                             NewProxy exEnv ''10.0.0.2:53'' ''dns'']\<rparr>"

text \<open>A stanza with one destination that gives both transport options.\<close>

definition cfgBoth :: "token list" where
  "cfgBoth = [tk 1 ''forward'', tk 1 ''.'', tk 1 ''127.0.0.1:53'', tk 1 ''{'',
              tk 2 ''force_tcp'', tk 3 ''prefer_udp'', tk 4 ''}'']"

definition fBoth :: Forward where
  "fBoth = \<lparr>proxies = [\<lparr>addr = ''127.0.0.1:53'', trans = ''dns'', proxyTLS = None,
                         proxyExpire = 10000000000, recursionDesired = True\<rparr>],
            hcInterval = 500000000, from' = ''.'', ignored = [],
            maxfails = 2, opts = \<lparr>hcRecursionDesired = True, forceTCP = True, preferUDP = True\<rparr>,
            tlsConfig = \<lparr>ServerName = [], material = []\<rparr>, tlsServerName = [],
            expire = 10000000000, p' = Random, ErrLimitExceeded = None,
            maxConcurrent = 0, maxFailedTries = 0, index = 0\<rparr>"

text \<open>
  The entry a line of an \<^verbatim>\<open>except_file\<close> stands for, written after the description of
  the file format and not after the code: the text from the first \<^verbatim>\<open>#\<close> on is dropped;
  what is left must be exactly one field; a field without \<^verbatim>\<open>/\<close> is the domain, a field
  with exactly two \<^verbatim>\<open>/\<close> (\<^verbatim>\<open>label/domain/class\<close>) has the domain between them; any other
  line has no entry.
\<close>

definition discardComment :: "string \<Rightarrow> string" where
  "discardComment l = takeWhile (\<lambda>b. b \<noteq> CHR ''#'') l"

definition middleComponent :: "string \<Rightarrow> string" where
  "middleComponent tok =
     takeWhile (\<lambda>b. b \<noteq> CHR ''/'') (tl (dropWhile (\<lambda>b. b \<noteq> CHR ''/'') tok))"

definition lineDomain :: "env \<Rightarrow> string \<Rightarrow> string option" where
  "lineDomain E l =
     (case Fields E (discardComment l) of
        [tok] \<Rightarrow>
          if CHR ''/'' \<notin> set tok then Some tok
          else if length (filter (\<lambda>b. b = CHR ''/'') tok) = 2 then Some (middleComponent tok)
          else None
      | _ \<Rightarrow> None)"

text \<open>
  The destination hosts of the stanza that starts at \<open>c\<close>: what \<^verbatim>\<open>parse.HostPortOrFile\<close>
  returns for the arguments that follow the zone.
\<close>

definition stanzaHosts :: "env \<Rightarrow> dispenser \<Rightarrow> string list" where
  "stanzaHosts E c =
     (case Args1 c (from' (New E)) of
        (_, _, c1) \<Rightarrow>
          (case HostPortOrFile E (fst (RemainingArgs c1)) of
             Inr toHosts \<Rightarrow> toHosts
           | Inl _ \<Rightarrow> []))"

text \<open>Concrete stanzas, and a controller on the \<^verbatim>\<open>forward\<close> token of each.\<close>

definition onStanza :: "token list \<Rightarrow> dispenser" where
  "onStanza ts = \<lparr>tokens = ts, cursor = 0, nesting = 0\<rparr>"

definition cfgNames :: "token list" where
  "cfgNames = [tk 1 ''forward'', tk 1 ''Example.ORG'', tk 1 ''10.0.0.1:53'', tk 1 ''{'',
               tk 2 ''except'', tk 2 ''Internal.example'',
               tk 3 ''except_file'', tk 3 ''except.txt'',
               tk 4 ''}'']"

definition cfgTLS :: "token list" where
  "cfgTLS = [tk 1 ''forward'', tk 1 ''.'', tk 1 ''tls://9.9.9.9:853'', tk 1 ''10.0.0.1:53'', tk 1 ''{'',
             tk 2 ''tls'',
             tk 3 ''tls_servername'', tk 3 ''dns.quad9.net'',
             tk 4 ''expire'', tk 4 ''5s'',
             tk 5 ''health_check'', tk 5 ''5s'', tk 5 ''no_rec'',
             tk 6 ''}'']"

definition cfgGrpc :: "token list" where
  "cfgGrpc = [tk 1 ''forward'', tk 1 ''.'', tk 1 ''10.0.0.1:53'', tk 1 ''grpc://10.0.0.2:443'']"

definition hosts16 :: "string list" where
  "hosts16 = [''10.0.0.1:53'', ''10.0.0.2:53'', ''10.0.0.3:53'', ''10.0.0.4:53'',
              ''10.0.0.5:53'', ''10.0.0.6:53'', ''10.0.0.7:53'', ''10.0.0.8:53'',
              ''10.0.0.9:53'', ''10.0.0.10:53'', ''10.0.0.11:53'', ''10.0.0.12:53'',
              ''10.0.0.13:53'', ''10.0.0.14:53'', ''10.0.0.15:53'', ''10.0.0.16:53'']"

definition cfg16 :: "token list" where
  "cfg16 = tk 1 ''forward'' # tk 1 ''.'' # map (tk 1) hosts16"

definition cfgTwoStanzas :: "token list" where
  "cfgTwoStanzas = [tk 1 ''forward'', tk 1 ''a.example'', tk 1 ''10.0.0.1:53'']
                   @ (tk 2 ''forward'' # tk 2 ''.'' # map (tk 2) hosts16)"

definition f16 :: Forward where
  "f16 = exNew\<lparr>proxies := map (\<lambda>h. NewProxy exEnv h ''dns'') hosts16\<rparr>"

text \<open>Stanzas with one destination and one option that is out of range.\<close>

definition cfgNegative :: "token list" where
  "cfgNegative = [tk 1 ''forward'', tk 1 ''.'', tk 1 ''10.0.0.1:53'', tk 1 ''{'',
                  tk 2 ''max_fails'', tk 2 ''-1'', tk 3 ''}'']"

definition cfgRetry :: "token list" where
  "cfgRetry = [tk 1 ''forward'', tk 1 ''.'', tk 1 ''10.0.0.1:53'', tk 1 ''{'',
               tk 2 ''retry_failed'', tk 2 ''2'', tk 3 ''}'']"

text \<open>The \<^verbatim>\<open>Forward\<close> of the stanza \<open>cfgTLS\<close>, and a stanza without a block.\<close>

definition fTLS :: Forward where
  "fTLS = exNew\<lparr>proxies := [\<lparr>addr = ''9.9.9.9:853'', trans = ''tls'',
                               proxyTLS = Some \<lparr>ServerName = ''dns.quad9.net'', material = []\<rparr>,
                               proxyExpire = 5000000000, recursionDesired = False\<rparr>,
                             \<lparr>addr = ''10.0.0.1:53'', trans = ''dns'', proxyTLS = None,
                               proxyExpire = 5000000000, recursionDesired = False\<rparr>],
                hcInterval := 5000000000,
                opts := \<lparr>hcRecursionDesired = False, forceTCP = False, preferUDP = False\<rparr>,
                tlsConfig := \<lparr>ServerName = ''dns.quad9.net'', material = []\<rparr>,
                tlsServerName := ''dns.quad9.net'', expire := 5000000000\<rparr>"

definition cfgPlain :: "token list" where
  "cfgPlain = [tk 1 ''forward'', tk 1 ''.'', tk 1 ''10.0.0.1:53'']"

section \<open>Properties of the setup code\<close>

subsection \<open>The concrete controllers\<close>

lemma no_line_break: "CHR 0x0A \<notin> set s \<Longrightarrow> filter (\<lambda>b. b = CHR 0x0A) s = []"
  by (induction s) auto

lemma Val_atDirective: "Val (atDirective name args) = name"
  by (simp add: atDirective_def Val_def tk_def)

lemma NextArg_atDirective:
  "CHR 0x0A \<notin> set name \<Longrightarrow>
   NextArg (atDirective name (a # args)) = (True, (atDirective name (a # args))\<lparr>cursor := 1\<rparr>)"
  by (simp add: atDirective_def NextArg_def tk_def numLineBreaks_def no_line_break)

lemma NextArg_atDirective_Nil:
  "CHR 0x0A \<notin> set name \<Longrightarrow>
   NextArg (atDirective name []) = (False, atDirective name [])"
  by (simp add: atDirective_def NextArg_def tk_def numLineBreaks_def no_line_break)

lemma Val_atDirective_arg:
  "Val ((atDirective name (a # args))\<lparr>cursor := 1\<rparr>) = a"
  by (simp add: atDirective_def Val_def tk_def)

subsection \<open>The options of a block\<close>

text \<open>
  C3. In \<^verbatim>\<open>parseBlock\<close> on \<^verbatim>\<open>retry_failed\<close> with an argument that \<^verbatim>\<open>Atoi\<close> reads as \<open>n\<close>:
  the option is accepted exactly when \<open>0 \<le> n\<close> and \<open>n\<close> is at most the number of proxies
  of the stanza; an accepted \<open>n\<close> is stored in \<^verbatim>\<open>maxFailedTries\<close>; a negative \<open>n\<close> and an
  \<open>n\<close> above the number of proxies each return their own error.
\<close>

theorem retry_failed_range:
  assumes "Val c = ''retry_failed''" and "NextArg c = (True, c1)" and "Atoi (Val c1) = Inr n"
  shows "((\<exists>c' f'. parseBlock E c f = Inr (c', f')) \<longleftrightarrow> 0 \<le> n \<and> n \<le> Len f)
       \<and> (0 \<le> n \<and> n \<le> Len f \<longrightarrow> parseBlock E c f = Inr (c1, f\<lparr>maxFailedTries := n\<rparr>))
       \<and> (n < 0 \<longrightarrow> parseBlock E c f = Inl (RetryFailedNegative n))
       \<and> (Len f < n \<longrightarrow> parseBlock E c f = Inl (RetryFailedTooLarge (Len f)))"
  using assms by (simp add: parseBlock_def Len_def)

theorem retry_failed_range_witness:
  "parseBlock exEnv (atDirective ''retry_failed'' [''2'']) fTwo
     = Inr ((atDirective ''retry_failed'' [''2''])\<lparr>cursor := 1\<rparr>, fTwo\<lparr>maxFailedTries := 2\<rparr>)
   \<and> parseBlock exEnv (atDirective ''retry_failed'' [''-1'']) fTwo = Inl (RetryFailedNegative (- 1))
   \<and> parseBlock exEnv (atDirective ''retry_failed'' [''3'']) fTwo = Inl (RetryFailedTooLarge 2)
   \<and> setup_forward exEnv (controller cfgRetry) noRegistrations
       = Some (Some (PluginError ''forward'' (RetryFailedTooLarge 1)), noRegistrations)"
proof -
  have whole: "setup_forward exEnv (controller cfgRetry) noRegistrations
       = Some (Some (PluginError ''forward'' (RetryFailedTooLarge 1)), noRegistrations)"
    by code_simp
  have len: "Len fTwo = 2"
    by (simp add: Len_def fTwo_def)
  have next_arg: "NextArg (atDirective ''retry_failed'' [a])
                    = (True, (atDirective ''retry_failed'' [a])\<lparr>cursor := 1\<rparr>)" for a
    by (simp add: NextArg_atDirective)
  have a2: "Atoi (Val ((atDirective ''retry_failed'' [''2''])\<lparr>cursor := 1\<rparr>)) = Inr 2"
    by (simp add: Val_atDirective_arg Atoi_def isDigit_def)
  have a1: "Atoi (Val ((atDirective ''retry_failed'' [''-1''])\<lparr>cursor := 1\<rparr>)) = Inr (- 1)"
    by (simp add: Val_atDirective_arg Atoi_def isDigit_def)
  have a3: "Atoi (Val ((atDirective ''retry_failed'' [''3''])\<lparr>cursor := 1\<rparr>)) = Inr 3"
    by (simp add: Val_atDirective_arg Atoi_def isDigit_def)
  show ?thesis
    using retry_failed_range [OF Val_atDirective next_arg a2, of exEnv fTwo]
          retry_failed_range [OF Val_atDirective next_arg a1, of exEnv fTwo]
          retry_failed_range [OF Val_atDirective next_arg a3, of exEnv fTwo]
    by (simp add: len whole)
qed

text \<open>
  C6. In \<^verbatim>\<open>parseBlock\<close> on \<^verbatim>\<open>policy\<close> with an argument: \<^verbatim>\<open>random\<close>, \<^verbatim>\<open>round_robin\<close> and
  \<^verbatim>\<open>sequential\<close> each store the policy of that name in the \<^verbatim>\<open>Forward\<close>, and every other
  string returns the unknown-policy error.
\<close>

theorem policy_strings:
  assumes "Val c = ''policy''" and "NextArg c = (True, c1)"
  shows "(Val c1 = ''random'' \<longrightarrow> parseBlock E c f = Inr (c1, f\<lparr>p' := Random\<rparr>))
       \<and> (Val c1 = ''round_robin'' \<longrightarrow> parseBlock E c f = Inr (c1, f\<lparr>p' := RoundRobin\<rparr>))
       \<and> (Val c1 = ''sequential'' \<longrightarrow> parseBlock E c f = Inr (c1, f\<lparr>p' := Sequential\<rparr>))
       \<and> (Val c1 \<noteq> ''random'' \<and> Val c1 \<noteq> ''round_robin'' \<and> Val c1 \<noteq> ''sequential''
            \<longrightarrow> parseBlock E c f = Inl (UnknownPolicy (Val c1)))"
  using assms by (simp add: parseBlock_def)

theorem policy_strings_witness:
  "parseBlock exEnv (atDirective ''policy'' [''random'']) exNew
     = Inr ((atDirective ''policy'' [''random''])\<lparr>cursor := 1\<rparr>, exNew\<lparr>p' := Random\<rparr>)
   \<and> parseBlock exEnv (atDirective ''policy'' [''round_robin'']) exNew
     = Inr ((atDirective ''policy'' [''round_robin''])\<lparr>cursor := 1\<rparr>, exNew\<lparr>p' := RoundRobin\<rparr>)
   \<and> parseBlock exEnv (atDirective ''policy'' [''sequential'']) exNew
     = Inr ((atDirective ''policy'' [''sequential''])\<lparr>cursor := 1\<rparr>, exNew\<lparr>p' := Sequential\<rparr>)
   \<and> parseBlock exEnv (atDirective ''policy'' [''Random'']) exNew = Inl (UnknownPolicy ''Random'')"
proof -
  have next_arg: "NextArg (atDirective ''policy'' [a])
                    = (True, (atDirective ''policy'' [a])\<lparr>cursor := 1\<rparr>)" for a
    by (simp add: NextArg_atDirective)
  show ?thesis
    using policy_strings [OF Val_atDirective next_arg, of "''random''" exEnv exNew]
          policy_strings [OF Val_atDirective next_arg, of "''round_robin''" exEnv exNew]
          policy_strings [OF Val_atDirective next_arg, of "''sequential''" exEnv exNew]
          policy_strings [OF Val_atDirective next_arg, of "''Random''" exEnv exNew]
    by (simp add: Val_atDirective_arg)
qed

text \<open>What the option loop of \<^verbatim>\<open>health_check\<close> can return.\<close>

lemma hcOptsLoop_Inr:
  "hcOptsLoop c f = Inr (c', f') \<Longrightarrow>
     f' = f \<or> f' = f\<lparr>opts := (opts f)\<lparr>hcRecursionDesired := False\<rparr>\<rparr>"
proof (induction c f rule: hcOptsLoop.induct)
  case (1 c f)
  show ?case
  proof (cases "fst (NextArg c)")
    case False
    with "1.prems" show ?thesis
      by (simp add: hcOptsLoop.simps [of c f])
  next
    case True
    show ?thesis
    proof (cases "Val (snd (NextArg c)) = ''no_rec''")
      case False
      with True "1.prems" show ?thesis
        by (simp add: hcOptsLoop.simps [of c f])
    next
      case no_rec: True
      with True "1.prems"
      have "hcOptsLoop (snd (NextArg c)) (f\<lparr>opts := (opts f)\<lparr>hcRecursionDesired := False\<rparr>\<rparr>) = Inr (c', f')"
        by (simp add: hcOptsLoop.simps [of c f])
      from "1.IH" [OF True no_rec this] show ?thesis
        by auto
    qed
  qed
qed

lemma hcOptsLoop_Inl:
  "hcOptsLoop c f = Inl e \<Longrightarrow> \<exists>opt. e = HealthCheckUnknownOption opt"
proof (induction c f rule: hcOptsLoop.induct)
  case (1 c f)
  show ?case
  proof (cases "fst (NextArg c)")
    case False
    with "1.prems" show ?thesis
      by (simp add: hcOptsLoop.simps [of c f])
  next
    case True
    show ?thesis
    proof (cases "Val (snd (NextArg c)) = ''no_rec''")
      case False
      with True "1.prems" show ?thesis
        by (auto simp: hcOptsLoop.simps [of c f])
    next
      case no_rec: True
      with True "1.prems"
      have "hcOptsLoop (snd (NextArg c)) (f\<lparr>opts := (opts f)\<lparr>hcRecursionDesired := False\<rparr>\<rparr>) = Inl e"
        by (simp add: hcOptsLoop.simps [of c f])
      from "1.IH" [OF True no_rec this] show ?thesis .
    qed
  qed
qed

lemma hcOptsLoop_no_option:
  "NextArg c = (False, c2) \<Longrightarrow> hcOptsLoop c f = Inr (c2, f)"
  by (simp add: hcOptsLoop.simps [of c f])

text \<open>
  C7. In \<^verbatim>\<open>parseBlock\<close>, a negative value of \<^verbatim>\<open>max_fails\<close>, \<^verbatim>\<open>health_check\<close>, \<^verbatim>\<open>expire\<close> or
  \<^verbatim>\<open>max_concurrent\<close> returns the error of that option, and a value that is not negative is
  stored: \<^verbatim>\<open>max_fails\<close> as the \<^verbatim>\<open>uint32\<close> of the number, the others as they are. After a
  \<^verbatim>\<open>health_check\<close> duration that is not negative the option loop runs on the stored
  duration; it keeps the duration, it can fail only on an unknown option, and with no
  further token on the line the directive is accepted.
\<close>

theorem negative_values_rejected:
  assumes "NextArg c = (True, c1)"
  shows "(Val c = ''max_fails'' \<longrightarrow> Atoi (Val c1) = Inr n \<longrightarrow>
            (n < 0 \<longrightarrow> parseBlock E c f = Inl (MaxFailsNegative n)) \<and>
            (0 \<le> n \<longrightarrow> parseBlock E c f = Inr (c1, f\<lparr>maxfails := word_of_int n\<rparr>)))
       \<and> (Val c = ''health_check'' \<longrightarrow> ParseDuration E (Val c1) = Inr dur \<longrightarrow>
            (dur < 0 \<longrightarrow> parseBlock E c f = Inl (HealthCheckNegative dur)) \<and>
            (0 \<le> dur \<longrightarrow>
               parseBlock E c f = hcOptsLoop c1 (f\<lparr>hcInterval := dur\<rparr>)
               \<and> (\<forall>c' f'. parseBlock E c f = Inr (c', f') \<longrightarrow> hcInterval f' = dur)
               \<and> (\<forall>e. parseBlock E c f = Inl e \<longrightarrow> (\<exists>opt. e = HealthCheckUnknownOption opt))
               \<and> (\<forall>c2. NextArg c1 = (False, c2) \<longrightarrow>
                         parseBlock E c f = Inr (c2, f\<lparr>hcInterval := dur\<rparr>))))
       \<and> (Val c = ''expire'' \<longrightarrow> ParseDuration E (Val c1) = Inr dur \<longrightarrow>
            (dur < 0 \<longrightarrow> parseBlock E c f = Inl (ExpireNegative dur)) \<and>
            (0 \<le> dur \<longrightarrow> parseBlock E c f = Inr (c1, f\<lparr>expire := dur\<rparr>)))
       \<and> (Val c = ''max_concurrent'' \<longrightarrow> Atoi (Val c1) = Inr n \<longrightarrow>
            (n < 0 \<longrightarrow> parseBlock E c f = Inl (MaxConcurrentNegative n)) \<and>
            (0 \<le> n \<longrightarrow>
               parseBlock E c f
                 = Inr (c1, f\<lparr>ErrLimitExceeded :=
                                 Some (ErrorsNew (''concurrent queries exceeded maximum '' @ Val c1)),
                               maxConcurrent := n\<rparr>)))"
proof -
  have max_fails: "Val c = ''max_fails'' \<Longrightarrow> Atoi (Val c1) = Inr n \<Longrightarrow>
      parseBlock E c f = (if n < 0 then Inl (MaxFailsNegative n)
                          else Inr (c1, f\<lparr>maxfails := word_of_int n\<rparr>))"
    using assms by (simp add: parseBlock_def)
  have health: "Val c = ''health_check'' \<Longrightarrow> ParseDuration E (Val c1) = Inr dur \<Longrightarrow>
      parseBlock E c f = (if dur < 0 then Inl (HealthCheckNegative dur)
                          else hcOptsLoop c1 (f\<lparr>hcInterval := dur\<rparr>))"
    using assms by (simp add: parseBlock_def)
  have expire: "Val c = ''expire'' \<Longrightarrow> ParseDuration E (Val c1) = Inr dur \<Longrightarrow>
      parseBlock E c f = (if dur < 0 then Inl (ExpireNegative dur)
                          else Inr (c1, f\<lparr>expire := dur\<rparr>))"
    using assms by (simp add: parseBlock_def)
  have conc: "Val c = ''max_concurrent'' \<Longrightarrow> Atoi (Val c1) = Inr n \<Longrightarrow>
      parseBlock E c f = (if n < 0 then Inl (MaxConcurrentNegative n)
                          else Inr (c1, f\<lparr>ErrLimitExceeded :=
                                 Some (ErrorsNew (''concurrent queries exceeded maximum '' @ Val c1)),
                               maxConcurrent := n\<rparr>))"
    using assms by (simp add: parseBlock_def)
  have stored: "hcInterval f' = dur" if "hcOptsLoop c1 (f\<lparr>hcInterval := dur\<rparr>) = Inr (c', f')" for c' f'
    using hcOptsLoop_Inr [OF that] by auto
  show ?thesis
    using max_fails expire conc
    by (auto simp: health stored hcOptsLoop_no_option dest: hcOptsLoop_Inl)
qed


text \<open>The numbers and durations of the concrete runs.\<close>

lemma Atoi_examples:
  "Atoi ''-1'' = Inr (- 1)" "Atoi ''3'' = Inr 3" "Atoi ''10'' = Inr 10"
  "Atoi ''4294967296'' = Inr 4294967296"
  by (simp_all add: Atoi_def isDigit_def)

lemma exParseDuration_examples:
  "exParseDuration ''-1s'' = Inr (- 1000000000)" "exParseDuration ''5s'' = Inr 5000000000"
  by (simp_all add: exParseDuration_def Atoi_def isDigit_def)

theorem negative_values_rejected_witness:
  "parseBlock exEnv (atDirective ''max_fails'' [''-1'']) exNew = Inl (MaxFailsNegative (- 1))
   \<and> parseBlock exEnv (atDirective ''max_fails'' [''3'']) exNew
       = Inr ((atDirective ''max_fails'' [''3''])\<lparr>cursor := 1\<rparr>, exNew\<lparr>maxfails := 3\<rparr>)
   \<and> parseBlock exEnv (atDirective ''health_check'' [''-1s'']) exNew
       = Inl (HealthCheckNegative (- 1000000000))
   \<and> parseBlock exEnv (atDirective ''health_check'' [''5s'']) exNew
       = Inr ((atDirective ''health_check'' [''5s''])\<lparr>cursor := 1\<rparr>,
              exNew\<lparr>hcInterval := 5000000000\<rparr>)
   \<and> parseBlock exEnv (atDirective ''expire'' [''-1s'']) exNew = Inl (ExpireNegative (- 1000000000))
   \<and> parseBlock exEnv (atDirective ''expire'' [''5s'']) exNew
       = Inr ((atDirective ''expire'' [''5s''])\<lparr>cursor := 1\<rparr>, exNew\<lparr>expire := 5000000000\<rparr>)
   \<and> parseBlock exEnv (atDirective ''max_concurrent'' [''-1'']) exNew
       = Inl (MaxConcurrentNegative (- 1))
   \<and> parseBlock exEnv (atDirective ''max_concurrent'' [''10'']) exNew
       = Inr ((atDirective ''max_concurrent'' [''10''])\<lparr>cursor := 1\<rparr>,
              exNew\<lparr>ErrLimitExceeded := Some (ErrorsNew ''concurrent queries exceeded maximum 10''),
                    maxConcurrent := 10\<rparr>)
   \<and> setup_forward exEnv (controller cfgNegative) noRegistrations
       = Some (Some (PluginError ''forward'' (MaxFailsNegative (- 1))), noRegistrations)"
proof -
  have whole: "setup_forward exEnv (controller cfgNegative) noRegistrations
       = Some (Some (PluginError ''forward'' (MaxFailsNegative (- 1))), noRegistrations)"
    by code_simp
  have mf: "NextArg (atDirective ''max_fails'' [a])
              = (True, (atDirective ''max_fails'' [a])\<lparr>cursor := 1\<rparr>)" for a
    by (simp add: NextArg_atDirective)
  have hc: "NextArg (atDirective ''health_check'' [a])
              = (True, (atDirective ''health_check'' [a])\<lparr>cursor := 1\<rparr>)" for a
    by (simp add: NextArg_atDirective)
  have ex: "NextArg (atDirective ''expire'' [a])
              = (True, (atDirective ''expire'' [a])\<lparr>cursor := 1\<rparr>)" for a
    by (simp add: NextArg_atDirective)
  have mc: "NextArg (atDirective ''max_concurrent'' [a])
              = (True, (atDirective ''max_concurrent'' [a])\<lparr>cursor := 1\<rparr>)" for a
    by (simp add: NextArg_atDirective)
  have last_arg: "NextArg ((atDirective ''health_check'' [''5s''])\<lparr>cursor := 1\<rparr>)
                    = (False, (atDirective ''health_check'' [''5s''])\<lparr>cursor := 1\<rparr>)"
    by (simp add: atDirective_def NextArg_def tk_def numLineBreaks_def)
  have dur: "ParseDuration exEnv = exParseDuration"
    by (simp add: exEnv_def)
  note simps = Val_atDirective Val_atDirective_arg Atoi_examples exParseDuration_examples dur
  have "parseBlock exEnv (atDirective ''health_check'' [''5s'']) exNew
          = Inr ((atDirective ''health_check'' [''5s''])\<lparr>cursor := 1\<rparr>,
                 exNew\<lparr>hcInterval := 5000000000\<rparr>)"
    using negative_values_rejected [OF hc [of "''5s''"], where dur = 5000000000
                                       and E = exEnv and f = exNew] last_arg
    by (auto simp: simps)
  then show ?thesis
    using negative_values_rejected [OF mf [of "''-1''"], where n = "- 1" and E = exEnv and f = exNew]
          negative_values_rejected [OF mf [of "''3''"], where n = 3 and E = exEnv and f = exNew]
          negative_values_rejected [OF hc [of "''-1s''"], where dur = "- 1000000000"
                                       and E = exEnv and f = exNew]
          negative_values_rejected [OF ex [of "''-1s''"], where dur = "- 1000000000"
                                       and E = exEnv and f = exNew]
          negative_values_rejected [OF ex [of "''5s''"], where dur = 5000000000
                                       and E = exEnv and f = exNew]
          negative_values_rejected [OF mc [of "''-1''"], where n = "- 1" and E = exEnv and f = exNew]
          negative_values_rejected [OF mc [of "''10''"], where n = 10 and E = exEnv and f = exNew]
    by (simp add: simps whole)
qed

text \<open>
  C10. In \<^verbatim>\<open>parseBlock\<close> on \<^verbatim>\<open>max_fails\<close> with an argument that \<^verbatim>\<open>Atoi\<close> reads as \<open>n \<ge> 0\<close>:
  the directive is accepted, only \<^verbatim>\<open>maxfails\<close> changes, and the stored threshold is
  \<open>n mod 2^32\<close>; for \<open>n = 4294967296\<close> it is \<open>0\<close>.
\<close>

theorem max_fails_narrowed:
  assumes "Val c = ''max_fails''" and "NextArg c = (True, c1)" and "Atoi (Val c1) = Inr n"
      and "0 \<le> n"
  shows "\<exists>f'. parseBlock E c f = Inr (c1, f') \<and> f' = f\<lparr>maxfails := maxfails f'\<rparr>
            \<and> uint (maxfails f') = n mod 2 ^ 32
            \<and> (n = 4294967296 \<longrightarrow> maxfails f' = 0)"
proof -
  have "parseBlock E c f = Inr (c1, f\<lparr>maxfails := word_of_int n\<rparr>)"
    using assms by (simp add: parseBlock_def)
  moreover have "uint (word_of_int n :: 32 word) = n mod 2 ^ 32"
    by (simp add: uint_word_of_int take_bit_eq_mod)
  moreover have "n = 4294967296 \<longrightarrow> (word_of_int n :: 32 word) = 0"
    by simp
  ultimately show ?thesis
    by simp
qed

theorem max_fails_narrowed_witness:
  "Atoi ''4294967296'' = Inr 4294967296
   \<and> parseBlock exEnv (atDirective ''max_fails'' [''4294967296'']) exNew
       = Inr ((atDirective ''max_fails'' [''4294967296''])\<lparr>cursor := 1\<rparr>, exNew\<lparr>maxfails := 0\<rparr>)"
proof -
  have mf: "NextArg (atDirective ''max_fails'' [a])
              = (True, (atDirective ''max_fails'' [a])\<lparr>cursor := 1\<rparr>)" for a
    by (simp add: NextArg_atDirective)
  have at: "Atoi (Val ((atDirective ''max_fails'' [''4294967296''])\<lparr>cursor := 1\<rparr>)) = Inr 4294967296"
    by (simp add: Val_atDirective_arg Atoi_examples)
  obtain f' where "parseBlock exEnv (atDirective ''max_fails'' [''4294967296'']) exNew
                     = Inr ((atDirective ''max_fails'' [''4294967296''])\<lparr>cursor := 1\<rparr>, f')"
      and "f' = exNew\<lparr>maxfails := maxfails f'\<rparr>" and "maxfails f' = 0"
    using max_fails_narrowed [OF Val_atDirective mf at, of exEnv exNew] by auto
  then show ?thesis
    by (simp add: Atoi_examples)
qed

text \<open>
  C4, as amended. \<^verbatim>\<open>force_tcp\<close> and \<^verbatim>\<open>prefer_udp\<close>, each given without an argument, are
  accepted whatever the \<^verbatim>\<open>Forward\<close> holds: each sets its own flag and leaves the other
  flag as it was, so both can be set in one stanza.
\<close>

theorem transport_flags_independent:
  assumes "NextArg c = (False, c1)"
  shows "(Val c = ''force_tcp'' \<longrightarrow>
            parseBlock E c f = Inr (c1, f\<lparr>opts := (opts f)\<lparr>forceTCP := True\<rparr>\<rparr>))
       \<and> (Val c = ''prefer_udp'' \<longrightarrow>
            parseBlock E c f = Inr (c1, f\<lparr>opts := (opts f)\<lparr>preferUDP := True\<rparr>\<rparr>))"
  using assms by (simp add: parseBlock_def)

theorem transport_flags_independent_witness:
  "parseBlock exEnv (atDirective ''force_tcp'' []) (exNew\<lparr>opts := (opts exNew)\<lparr>preferUDP := True\<rparr>\<rparr>)
     = Inr (atDirective ''force_tcp'' [],
            exNew\<lparr>opts := \<lparr>hcRecursionDesired = True, forceTCP = True, preferUDP = True\<rparr>\<rparr>)
   \<and> parseBlock exEnv (atDirective ''prefer_udp'' []) (exNew\<lparr>opts := (opts exNew)\<lparr>forceTCP := True\<rparr>\<rparr>)
     = Inr (atDirective ''prefer_udp'' [],
            exNew\<lparr>opts := \<lparr>hcRecursionDesired = True, forceTCP = True, preferUDP = True\<rparr>\<rparr>)"
proof -
  have tcp: "NextArg (atDirective ''force_tcp'' []) = (False, atDirective ''force_tcp'' [])"
    by (simp add: NextArg_atDirective_Nil)
  have udp: "NextArg (atDirective ''prefer_udp'' []) = (False, atDirective ''prefer_udp'' [])"
    by (simp add: NextArg_atDirective_Nil)
  show ?thesis
    using transport_flags_independent [OF tcp, of exEnv "exNew\<lparr>opts := (opts exNew)\<lparr>preferUDP := True\<rparr>\<rparr>"]
          transport_flags_independent [OF udp, of exEnv "exNew\<lparr>opts := (opts exNew)\<lparr>forceTCP := True\<rparr>\<rparr>"]
    by (simp add: Val_atDirective exNew_def)
qed

text \<open>
  C4 as stated fails: the stanza \<^verbatim>\<open>forward . 127.0.0.1:53 { force_tcp; prefer_udp }\<close> (one
  option per line) is accepted by the whole setup, and the \<^verbatim>\<open>Forward\<close> it registers has
  both flags set.
\<close>

theorem force_tcp_prefer_udp_counterexample:
  "setup_forward exEnv (controller cfgBoth) noRegistrations
     = Some (None, \<lparr>plugins = [fBoth], startupHooks = [fBoth], shutdownHooks = [fBoth]\<rparr>)
   \<and> forceTCP (opts fBoth) \<and> preferUDP (opts fBoth)"
  by code_simp

subsection \<open>The lines of an except file\<close>

lemma Index_discard:
  "(if Index l c \<ge> 0 then take (nat (Index l c)) l else l) = takeWhile (\<lambda>b. b \<noteq> c) l"
proof (induction l)
  case Nil
  show ?case by simp
next
  case (Cons ch s)
  show ?case
  proof (cases "ch = c")
    case True
    then show ?thesis by simp
  next
    case False
    show ?thesis
    proof (cases "Index s c < 0")
      case True
      with Cons False show ?thesis by (simp add: Let_def)
    next
      case nonneg: False
      then have "nat (Index s c + 1) = Suc (nat (Index s c))" by simp
      with Cons False nonneg show ?thesis by (simp add: Let_def)
    qed
  qed
qed

lemma Split_not_Nil: "Split s c \<noteq> []"
  by (induction s) (auto split: list.splits)

lemma length_Split: "length (Split s c) = Suc (length (filter (\<lambda>b. b = c) s))"
  by (induction s) (auto simp: Split_not_Nil split: list.splits)

lemma Split_no_separator: "c \<notin> set s \<Longrightarrow> Split s c = [s]"
  by (induction s) auto

lemma Split_first:
  "Split s c = takeWhile (\<lambda>b. b \<noteq> c) s
                 # (if c \<in> set s then Split (tl (dropWhile (\<lambda>b. b \<noteq> c) s)) c else [])"
  by (induction s) (auto simp: Split_not_Nil split: list.splits)

lemma Split_second:
  assumes "c \<in> set s"
  shows "Split s c ! Suc 0 = takeWhile (\<lambda>b. b \<noteq> c) (tl (dropWhile (\<lambda>b. b \<noteq> c) s))"
proof -
  have "Split s c ! Suc 0 = Split (tl (dropWhile (\<lambda>b. b \<noteq> c) s)) c ! 0"
    using assms by (subst Split_first) simp
  also have "\<dots> = takeWhile (\<lambda>b. b \<noteq> c) (tl (dropWhile (\<lambda>b. b \<noteq> c) s))"
    by (subst Split_first) simp
  finally show ?thesis .
qed

lemma scanLines_step:
  "scanLines E (l # rest) f =
     scanLines E rest
       (case lineDomain E l of
          None \<Rightarrow> f
        | Some d \<Rightarrow> f\<lparr>ignored := ignored f @ [Normalize E d]\<rparr>)"
proof -
  have line: "(if Index l (CHR ''#'') \<ge> 0 then take (nat (Index l (CHR ''#''))) l else l)
                = discardComment l"
    unfolding discardComment_def by (rule Index_discard)
  show ?thesis
  proof (cases "Fields E (discardComment l)")
    case Nil
    then show ?thesis
      by (simp add: Let_def line lineDomain_def)
  next
    case (Cons tok more)
    show ?thesis
    proof (cases more)
      case (Cons tok2 more2)
      with \<open>Fields E (discardComment l) = tok # more\<close> show ?thesis
        by (simp add: Let_def line lineDomain_def)
    next
      case Nil
      with Cons have fields: "Fields E (discardComment l) = [tok]" by simp
      show ?thesis
      proof (cases "CHR ''/'' \<in> set tok")
        case False
        then show ?thesis
          by (simp add: Let_def line lineDomain_def fields Split_no_separator)
      next
        case True
        then have "filter (\<lambda>b. b = CHR ''/'') tok \<noteq> []"
          by (simp add: filter_empty_conv)
        then have one: "length (Split tok (CHR ''/'')) \<noteq> 1"
          by (simp add: length_Split)
        have three: "length (Split tok (CHR ''/'')) = 3
                       \<longleftrightarrow> length (filter (\<lambda>b. b = CHR ''/'') tok) = 2"
          by (simp add: length_Split)
        show ?thesis
          using True one
          by (simp add: Let_def line lineDomain_def fields three middleComponent_def Split_second)
      qed
    qed
  qed
qed

lemma map_filter_Cons:
  "List.map_filter g (x # xs) = (case g x of None \<Rightarrow> List.map_filter g xs | Some y \<Rightarrow> y # List.map_filter g xs)"
  by (simp add: List.map_filter_def split: option.splits)

lemma scanLines_entries:
  "scanLines E scanned f
     = f\<lparr>ignored := ignored f @ map (Normalize E) (List.map_filter (lineDomain E) scanned)\<rparr>"
proof (induction scanned arbitrary: f)
  case Nil
  show ?case by (simp add: List.map_filter_def)
next
  case (Cons l rest)
  show ?case
    by (simp only: scanLines_step Cons.IH) (simp add: map_filter_Cons split: option.splits)
qed

text \<open>
  C2, as amended. \<^verbatim>\<open>except_file\<close> with one file name appends, in the order of the lines the
  scanner yields, the normalized entry of every line that has one, and nothing for the
  other lines. The entry of a line is \<open>lineDomain\<close>: the text from the first \<^verbatim>\<open>#\<close> on is
  dropped, and what is left has an entry only when it is exactly one field, the whole field
  when it has no \<^verbatim>\<open>/\<close> and the middle component when it has exactly two.
\<close>

theorem except_file_entries:
  assumes "Val c = ''except_file''" and "RemainingArgs c = ([name], c1)"
      and "Open E name = Inr scanned"
  shows "parseBlock E c f
           = Inr (c1, f\<lparr>ignored := ignored f
                          @ map (Normalize E) (List.map_filter (lineDomain E) scanned)\<rparr>)"
  using assms by (simp add: parseBlock_def scanLines_entries)

theorem except_file_entries_witness:
  "parseBlock exEnv (atDirective ''except_file'' [''except.txt'']) exNew
     = Inr ((atDirective ''except_file'' [''except.txt''])\<lparr>cursor := 1\<rparr>,
            exNew\<lparr>ignored := [''a.example.'', ''b.example.'']\<rparr>)"
proof -
  have args: "RemainingArgs (atDirective ''except_file'' [''except.txt''])
                = ([''except.txt''], (atDirective ''except_file'' [''except.txt''])\<lparr>cursor := 1\<rparr>)"
    by code_simp
  have opened: "Open exEnv ''except.txt''
                = Inr [''# names kept local'', ''a.example  # first'', ''lbl/b.example/IN'',
                       ''c.example d.example'', ''x/y'', []]"
    by (simp add: exEnv_def exOpen_def)
  have entries: "map (Normalize exEnv)
                   (List.map_filter (lineDomain exEnv)
                      [''# names kept local'', ''a.example  # first'', ''lbl/b.example/IN'',
                       ''c.example d.example'', ''x/y'', []])
                 = [''a.example.'', ''b.example.'']"
    by code_simp
  have none: "ignored exNew = []"
    by (simp add: exNew_def)
  show ?thesis
    using except_file_entries [OF Val_atDirective args opened, of exNew]
    by (simp only: entries none append_Nil)
qed

text \<open>
  C2 as stated fails: a line that is not a comment can have no entry. A line of two fields
  and a line whose field has two components leave the \<^verbatim>\<open>Forward\<close> as it was.
\<close>

theorem except_file_line_counterexample:
  "scanLines exEnv [''c.example d.example''] exNew = exNew
   \<and> scanLines exEnv [''x/y''] exNew = exNew"
  by code_simp

subsection \<open>What a stanza keeps while its block is parsed\<close>

lemma parseBlock_frame:
  assumes "parseBlock E c f = Inr (c1, f1)"
  shows "proxies f1 = proxies f \<and> from' f1 = from' f
       \<and> (\<exists>names. ignored f1 = ignored f @ map (Normalize E) names)"
proof -
  have hc: "proxies f1 = proxies g \<and> from' f1 = from' g \<and> ignored f1 = ignored g"
    if "hcOptsLoop c2 g = Inr (c1, f1)" for c2 g
    using hcOptsLoop_Inr [OF that] by auto
  have nil: "\<exists>names. ignored f = ignored f @ map (Normalize E) names"
    by (rule exI [of _ "[]"]) simp
  show ?thesis
    using assms nil
    by (auto simp: parseBlock_def scanLines_entries
             split: if_splits prod.splits sum.splits bool.splits dest!: hc)
qed

lemma parseBlocks_frame:
  assumes "parseBlocks E c f = Some (Inr (c', f'))"
  shows "proxies f' = proxies f \<and> from' f' = from' f
       \<and> (\<exists>names. ignored f' = ignored f @ map (Normalize E) names)"
proof -
  let ?Q = "\<lambda>(E::env) (c::dispenser) (f::Forward) (y::error + dispenser \<times> Forward).
          \<forall>c' f'. y = Inr (c', f') \<longrightarrow>
          proxies f' = proxies f \<and> from' f' = from' f
          \<and> (\<exists>names. ignored f' = ignored f @ map (Normalize E) names)"
  have "?Q E c f (Inr (c', f'))"
  proof (rule parseBlocks.raw_induct [where P = ?Q, OF _ assms], goal_cases)
    case (1 loop E c f y)
    show ?case
    proof (cases "fst (NextBlock c)")
      case False
      with "1"(2) have "y = Inr (snd (NextBlock c), f)"
        by simp
      then show ?thesis
        by (auto intro: exI [of _ "[]"])
    next
      case True
      show ?thesis
      proof (cases "parseBlock E (snd (NextBlock c)) f")
        case (Inl err)
        with True "1"(2) have "y = Inl err"
          by simp
        then show ?thesis
          by simp
      next
        case (Inr r)
        obtain c1 f1 where r: "r = (c1, f1)"
          by (cases r)
        from Inr r True "1"(2) have "loop E c1 f1 = Some y"
          by simp
        note ih = "1"(1) [OF this]
        from Inr r have "parseBlock E (snd (NextBlock c)) f = Inr (c1, f1)"
          by simp
        from parseBlock_frame [OF this]
        obtain names1 where step: "proxies f1 = proxies f" "from' f1 = from' f"
            "ignored f1 = ignored f @ map (Normalize E) names1"
          by blast
        show ?thesis
        proof (intro allI impI)
          fix c' f'
          assume "y = Inr (c', f')"
          with ih obtain names2 where rest: "proxies f' = proxies f1" "from' f' = from' f1"
              "ignored f' = ignored f1 @ map (Normalize E) names2"
            by blast
          have "ignored f' = ignored f @ map (Normalize E) (names1 @ names2)"
            using step rest by simp
          with step rest show "proxies f' = proxies f \<and> from' f' = from' f
              \<and> (\<exists>names. ignored f' = ignored f @ map (Normalize E) names)"
            by (intro conjI exI [of _ "names1 @ names2"]) simp_all
        qed
      qed
    qed
  qed
  then show ?thesis
    by blast
qed

lemma makeProxies_Inr:
  assumes "makeProxies E hosts f trs = Inr (f', trs')"
  shows "f' = f\<lparr>proxies := proxies f
                   @ map (\<lambda>host. NewProxy E (snd (Transport E host)) (fst (Transport E host))) hosts\<rparr>
       \<and> trs' = trs @ map (\<lambda>host. fst (Transport E host)) hosts
       \<and> (\<forall>host \<in> set hosts. allowedTrans (fst (Transport E host)))"
  using assms
proof (induction hosts arbitrary: f trs)
  case Nil
  then show ?case by simp
next
  case (Cons host rest)
  obtain tr h where th: "Transport E host = (tr, h)"
    by (cases "Transport E host")
  with Cons.prems have ok: "allowedTrans tr"
    by (auto split: if_splits)
  with Cons.prems th
  have "makeProxies E rest (f\<lparr>proxies := proxies f @ [NewProxy E h tr]\<rparr>) (trs @ [tr]) = Inr (f', trs')"
    by simp
  from Cons.IH [OF this] th ok show ?case
    by simp
qed

lemma makeProxies_allowed:
  assumes "\<forall>host \<in> set hosts. allowedTrans (fst (Transport E host))"
  shows "makeProxies E hosts f trs
           = Inr (f\<lparr>proxies := proxies f
                        @ map (\<lambda>host. NewProxy E (snd (Transport E host)) (fst (Transport E host))) hosts\<rparr>,
                  trs @ map (\<lambda>host. fst (Transport E host)) hosts)"
  using assms
proof (induction hosts arbitrary: f trs)
  case Nil
  show ?case by simp
next
  case (Cons host rest)
  then show ?case
    by (cases "Transport E host") simp
qed

lemma makeProxies_unsupported:
  assumes "find (\<lambda>host. \<not> allowedTrans (fst (Transport E host))) hosts = Some bad"
  shows "makeProxies E hosts f trs = Inl (UnsupportedProtocol (fst (Transport E bad)) bad)"
  using assms
proof (induction hosts arbitrary: f trs)
  case Nil
  then show ?case by simp
next
  case (Cons host rest)
  then show ?case
    by (cases "Transport E host") (auto split: if_splits)
qed

lemma parseStanza_Inr:
  assumes "parseStanza E c = Some (Inr (c', f))"
  obtains v c1 to c2 toHosts f1 trs f2 where
    "Args1 c (from' (New E)) = (True, v, c1)" and "RemainingArgs c1 = (to, c2)" and "to \<noteq> []"
    and "HostPortOrFile E to = Inr toHosts"
    and "makeProxies E toHosts ((New E)\<lparr>from' := Normalize E v\<rparr>) [] = Inr (f1, trs)"
    and "parseBlocks E c2 f1 = Some (Inr (c', f2))"
    and "configureProxies
           (if tlsServerName f2 \<noteq> []
            then f2\<lparr>tlsConfig := (tlsConfig f2)\<lparr>ServerName := tlsServerName f2\<rparr>\<rparr> else f2) trs
         = Inr f"
  using assms
  by (auto simp: parseStanza_def Let_def
           split: prod.splits bool.splits if_splits sum.splits option.splits)

lemma configureProxies_Inr:
  assumes "configureProxies g trs = Inr f"
  shows "length (proxies g) \<le> length trs
       \<and> f = g\<lparr>proxies := map (\<lambda>i. configureProxy g (trs ! i) (proxies g ! i))
                               [0 ..< length (proxies g)]\<rparr>"
  using assms by (auto simp: configureProxies_def split: if_splits)

text \<open>
  C9. After a stanza is parsed, the zone is \<open>Normalize\<close> of its first argument, and the exclusion
  list is the list \<^verbatim>\<open>New()\<close> started with, followed by results of \<open>Normalize\<close> only; so no
  name that is not normalized is stored, provided \<^verbatim>\<open>New()\<close> starts with none.
\<close>

theorem stored_names_normalized:
  assumes "parseStanza E c = Some (Inr (c', f))"
  shows "from' f = Normalize E (fst (snd (Args1 c (from' (New E)))))
       \<and> (\<exists>names. ignored f = ignored (New E) @ map (Normalize E) names)
       \<and> (set (ignored (New E)) \<subseteq> range (Normalize E) \<longrightarrow> set (ignored f) \<subseteq> range (Normalize E))"
proof -
  from assms obtain v c1 to c2 toHosts f1 trs f2 where
      args: "Args1 c (from' (New E)) = (True, v, c1)"
      and mk: "makeProxies E toHosts ((New E)\<lparr>from' := Normalize E v\<rparr>) [] = Inr (f1, trs)"
      and blocks: "parseBlocks E c2 f1 = Some (Inr (c', f2))"
      and conf: "configureProxies
           (if tlsServerName f2 \<noteq> []
            then f2\<lparr>tlsConfig := (tlsConfig f2)\<lparr>ServerName := tlsServerName f2\<rparr>\<rparr> else f2) trs
         = Inr f"
    by (rule parseStanza_Inr)
  from makeProxies_Inr [OF mk]
  have f1: "from' f1 = Normalize E v" "ignored f1 = ignored (New E)"
    by simp_all
  from parseBlocks_frame [OF blocks] obtain names where
      f2: "from' f2 = from' f1" "ignored f2 = ignored f1 @ map (Normalize E) names"
    by blast
  from configureProxies_Inr [OF conf]
  have f: "from' f = from' f2" "ignored f = ignored f2"
    by (auto split: if_splits)
  have zone: "from' f = Normalize E (fst (snd (Args1 c (from' (New E)))))"
    using f f2 f1 args by simp
  have excl: "ignored f = ignored (New E) @ map (Normalize E) names"
    using f f2 f1 by simp
  have "set (ignored f) \<subseteq> range (Normalize E)" if "set (ignored (New E)) \<subseteq> range (Normalize E)"
    using that by (auto simp: excl)
  with zone excl show ?thesis
    by blast
qed

theorem stored_names_normalized_witness:
  "parseStanza exEnv (onStanza cfgNames)
     = Some (Inr ((onStanza cfgNames)\<lparr>cursor := 8\<rparr>,
                  exNew\<lparr>proxies := [NewProxy exEnv ''10.0.0.1:53'' ''dns''],
                        from' := ''Example.ORG.'',
                        ignored := [''Internal.example.'', ''a.example.'', ''b.example.'']\<rparr>))
   \<and> ''Example.ORG.'' = Normalize exEnv ''Example.ORG''
   \<and> set [''Internal.example.'', ''a.example.'', ''b.example.''] \<subseteq> range (Normalize exEnv)"
proof -
  have run: "parseStanza exEnv (onStanza cfgNames)
     = Some (Inr ((onStanza cfgNames)\<lparr>cursor := 8\<rparr>,
                  exNew\<lparr>proxies := [NewProxy exEnv ''10.0.0.1:53'' ''dns''],
                        from' := ''Example.ORG.'',
                        ignored := [''Internal.example.'', ''a.example.'', ''b.example.'']\<rparr>))"
    by code_simp
  have start: "set (ignored (New exEnv)) \<subseteq> range (Normalize exEnv)"
    by (simp add: exEnv_def exNew_def)
  have zone: "fst (snd (Args1 (onStanza cfgNames) (from' (New exEnv)))) = ''Example.ORG''"
    by code_simp
  from stored_names_normalized [OF run] start
  have "''Example.ORG.'' = Normalize exEnv ''Example.ORG''
        \<and> set [''Internal.example.'', ''a.example.'', ''b.example.''] \<subseteq> range (Normalize exEnv)"
    by (simp add: zone)
  with run show ?thesis
    by simp
qed

text \<open>
  C8. After a stanza is parsed, its proxies are the proxies made for its destination hosts,
  one per host and in their order, each changed in this way only: a proxy whose transport
  tag is \<^verbatim>\<open>transport.TLS\<close> holds the TLS configuration of the stanza and every other proxy
  holds the one it was made with; every proxy holds the expiry and the recursion-desired
  flag of the stanza. The TLS configuration of the stanza has the server name of
  \<^verbatim>\<open>tls_servername\<close> when that is not empty.
\<close>

theorem tls_only_for_tls_proxies:
  assumes "parseStanza E c = Some (Inr (c', f))"
  shows "(tlsServerName f \<noteq> [] \<longrightarrow> ServerName (tlsConfig f) = tlsServerName f)
       \<and> length (proxies f) = length (stanzaHosts E c)
       \<and> (\<forall>i < length (stanzaHosts E c).
            (let host = stanzaHosts E c ! i;
                 tr = fst (Transport E host);
                 made = NewProxy E (snd (Transport E host)) tr;
                 p = proxies f ! i
             in (if tr = transport_TLS then proxyTLS p = Some (tlsConfig f)
                 else proxyTLS p = proxyTLS made)
                \<and> proxyExpire p = expire f
                \<and> recursionDesired p = hcRecursionDesired (opts f)
                \<and> addr p = addr made \<and> trans p = trans made))"
proof -
  from assms obtain v c1 to c2 toHosts f1 trs f2 where
      args: "Args1 c (from' (New E)) = (True, v, c1)"
      and rest: "RemainingArgs c1 = (to, c2)"
      and hosts: "HostPortOrFile E to = Inr toHosts"
      and mk: "makeProxies E toHosts ((New E)\<lparr>from' := Normalize E v\<rparr>) [] = Inr (f1, trs)"
      and blocks: "parseBlocks E c2 f1 = Some (Inr (c', f2))"
      and conf: "configureProxies
           (if tlsServerName f2 \<noteq> []
            then f2\<lparr>tlsConfig := (tlsConfig f2)\<lparr>ServerName := tlsServerName f2\<rparr>\<rparr> else f2) trs
         = Inr f"
    by (rule parseStanza_Inr)
  define g where "g = (if tlsServerName f2 \<noteq> []
            then f2\<lparr>tlsConfig := (tlsConfig f2)\<lparr>ServerName := tlsServerName f2\<rparr>\<rparr> else f2)"
  define made where "made = (\<lambda>host. NewProxy E (snd (Transport E host)) (fst (Transport E host)))"
  have sh: "stanzaHosts E c = toHosts"
    by (simp add: stanzaHosts_def args rest hosts)
  from makeProxies_Inr [OF mk]
  have f1: "proxies f1 = proxies (New E) @ map made toHosts"
      and trs: "trs = map (\<lambda>host. fst (Transport E host)) toHosts"
    by (simp_all add: made_def)
  from parseBlocks_frame [OF blocks] have f2: "proxies f2 = proxies f1"
    by simp
  have g: "proxies g = proxies (New E) @ map made toHosts"
    by (simp add: g_def f2 f1)
  from configureProxies_Inr [OF conf [folded g_def]]
  have len: "length (proxies g) \<le> length trs"
      and f: "f = g\<lparr>proxies := map (\<lambda>i. configureProxy g (trs ! i) (proxies g ! i))
                                  [0 ..< length (proxies g)]\<rparr>"
    by simp_all
  from len have "proxies (New E) = []"
    by (simp add: g trs)
  with g have g': "proxies g = map made toHosts"
    by simp
  have fields: "tlsConfig f = tlsConfig g" "tlsServerName f = tlsServerName g"
      "expire f = expire g" "opts f = opts g"
    by (subst f, simp)+
  have name: "tlsServerName f \<noteq> [] \<longrightarrow> ServerName (tlsConfig f) = tlsServerName f"
    by (simp add: fields g_def)
  have length: "length (proxies f) = length toHosts"
    by (subst f) (simp add: g')
  have nth: "proxies f ! i = configureProxy f (fst (Transport E (toHosts ! i))) (made (toHosts ! i))"
    if "i < length toHosts" for i
  proof -
    have "proxies f ! i = configureProxy g (trs ! i) (proxies g ! i)"
      using that by (subst f) (simp add: g')
    also have "\<dots> = configureProxy g (fst (Transport E (toHosts ! i))) (made (toHosts ! i))"
      using that by (simp add: trs g')
    also have "\<dots> = configureProxy f (fst (Transport E (toHosts ! i))) (made (toHosts ! i))"
      by (simp add: configureProxy_def fields)
    finally show ?thesis .
  qed
  have each: "(let host = toHosts ! i;
                 tr = fst (Transport E host);
                 made = NewProxy E (snd (Transport E host)) tr;
                 p = proxies f ! i
             in (if tr = transport_TLS then proxyTLS p = Some (tlsConfig f)
                 else proxyTLS p = proxyTLS made)
                \<and> proxyExpire p = expire f
                \<and> recursionDesired p = hcRecursionDesired (opts f)
                \<and> addr p = addr made \<and> trans p = trans made)"
    if "i < length toHosts" for i
    by (simp add: Let_def nth [OF that] made_def configureProxy_def SetTLSConfig_def
                  SetExpire_def SetRecursionDesired_def)
  from name length each show ?thesis
    by (simp add: sh)
qed

theorem tls_only_for_tls_proxies_witness:
  "parseStanza exEnv (onStanza cfgTLS)
     = Some (Inr ((onStanza cfgTLS)\<lparr>cursor := 13\<rparr>,
          exNew\<lparr>proxies := [\<lparr>addr = ''9.9.9.9:853'', trans = ''tls'',
                                proxyTLS = Some \<lparr>ServerName = ''dns.quad9.net'', material = []\<rparr>,
                                proxyExpire = 5000000000, recursionDesired = False\<rparr>,
                              \<lparr>addr = ''10.0.0.1:53'', trans = ''dns'', proxyTLS = None,
                                proxyExpire = 5000000000, recursionDesired = False\<rparr>],
                hcInterval := 5000000000,
                opts := \<lparr>hcRecursionDesired = False, forceTCP = False, preferUDP = False\<rparr>,
                tlsConfig := \<lparr>ServerName = ''dns.quad9.net'', material = []\<rparr>,
                tlsServerName := ''dns.quad9.net'', expire := 5000000000\<rparr>))
   \<and> stanzaHosts exEnv (onStanza cfgTLS) = [''tls://9.9.9.9:853'', ''10.0.0.1:53'']"
proof -
  let ?f = "exNew\<lparr>proxies := [\<lparr>addr = ''9.9.9.9:853'', trans = ''tls'',
                                proxyTLS = Some \<lparr>ServerName = ''dns.quad9.net'', material = []\<rparr>,
                                proxyExpire = 5000000000, recursionDesired = False\<rparr>,
                              \<lparr>addr = ''10.0.0.1:53'', trans = ''dns'', proxyTLS = None,
                                proxyExpire = 5000000000, recursionDesired = False\<rparr>],
                hcInterval := 5000000000,
                opts := \<lparr>hcRecursionDesired = False, forceTCP = False, preferUDP = False\<rparr>,
                tlsConfig := \<lparr>ServerName = ''dns.quad9.net'', material = []\<rparr>,
                tlsServerName := ''dns.quad9.net'', expire := 5000000000\<rparr>"
  have run: "parseStanza exEnv (onStanza cfgTLS) = Some (Inr ((onStanza cfgTLS)\<lparr>cursor := 13\<rparr>, ?f))"
    by code_simp
  have "length (proxies ?f) = length (stanzaHosts exEnv (onStanza cfgTLS))"
    using tls_only_for_tls_proxies [OF run] by blast
  moreover have "length (proxies ?f) = 2"
    by simp
  moreover have "take 2 (stanzaHosts exEnv (onStanza cfgTLS)) = [''tls://9.9.9.9:853'', ''10.0.0.1:53'']"
    by code_simp
  ultimately have "stanzaHosts exEnv (onStanza cfgTLS) = [''tls://9.9.9.9:853'', ''10.0.0.1:53'']"
    by simp
  with run show ?thesis
    by simp
qed

lemma parseStanza_created:
  assumes "parseStanza E c = Some (Inr (c', f))"
      and "Args1 c (from' (New E)) = (True, v, c1)" and "RemainingArgs c1 = (to, c2)"
      and "HostPortOrFile E to = Inr toHosts"
  shows "(\<forall>host \<in> set toHosts. allowedTrans (fst (Transport E host)))
       \<and> length (proxies f) = length toHosts
       \<and> (\<forall>i < length toHosts.
            proxies f ! i
              = configureProxy f (fst (Transport E (toHosts ! i)))
                  (NewProxy E (snd (Transport E (toHosts ! i))) (fst (Transport E (toHosts ! i)))))"
proof -
  from assms(1) obtain v' c1' to' c2' toHosts' f1 trs f2 where
      args: "Args1 c (from' (New E)) = (True, v', c1')"
      and rest: "RemainingArgs c1' = (to', c2')"
      and hosts: "HostPortOrFile E to' = Inr toHosts'"
      and mk: "makeProxies E toHosts' ((New E)\<lparr>from' := Normalize E v'\<rparr>) [] = Inr (f1, trs)"
      and blocks: "parseBlocks E c2' f1 = Some (Inr (c', f2))"
      and conf: "configureProxies
           (if tlsServerName f2 \<noteq> []
            then f2\<lparr>tlsConfig := (tlsConfig f2)\<lparr>ServerName := tlsServerName f2\<rparr>\<rparr> else f2) trs
         = Inr f"
    by (rule parseStanza_Inr)
  from args rest hosts assms(2-4) have same: "toHosts' = toHosts"
    by simp
  define g where "g = (if tlsServerName f2 \<noteq> []
            then f2\<lparr>tlsConfig := (tlsConfig f2)\<lparr>ServerName := tlsServerName f2\<rparr>\<rparr> else f2)"
  define made where "made = (\<lambda>host. NewProxy E (snd (Transport E host)) (fst (Transport E host)))"
  from makeProxies_Inr [OF mk]
  have f1: "proxies f1 = proxies (New E) @ map made toHosts"
      and trs: "trs = map (\<lambda>host. fst (Transport E host)) toHosts"
      and allowed: "\<forall>host \<in> set toHosts. allowedTrans (fst (Transport E host))"
    by (simp_all add: made_def same)
  from parseBlocks_frame [OF blocks] have f2: "proxies f2 = proxies f1"
    by simp
  have g: "proxies g = proxies (New E) @ map made toHosts"
    by (simp add: g_def f2 f1)
  from configureProxies_Inr [OF conf [folded g_def]]
  have len: "length (proxies g) \<le> length trs"
      and f: "f = g\<lparr>proxies := map (\<lambda>i. configureProxy g (trs ! i) (proxies g ! i))
                                  [0 ..< length (proxies g)]\<rparr>"
    by simp_all
  from len have "proxies (New E) = []"
    by (simp add: g trs)
  with g have g': "proxies g = map made toHosts"
    by simp
  have fields: "tlsConfig f = tlsConfig g" "expire f = expire g" "opts f = opts g"
    by (subst f, simp)+
  have length: "length (proxies f) = length toHosts"
    by (subst f) (simp add: g')
  have nth: "proxies f ! i = configureProxy f (fst (Transport E (toHosts ! i))) (made (toHosts ! i))"
    if "i < length toHosts" for i
  proof -
    have "proxies f ! i = configureProxy g (trs ! i) (proxies g ! i)"
      using that by (subst f) (simp add: g')
    also have "\<dots> = configureProxy g (fst (Transport E (toHosts ! i))) (made (toHosts ! i))"
      using that by (simp add: trs g')
    also have "\<dots> = configureProxy f (fst (Transport E (toHosts ! i))) (made (toHosts ! i))"
      by (simp add: configureProxy_def fields)
    finally show ?thesis .
  qed
  from allowed length nth show ?thesis
    by (simp add: made_def)
qed

lemma configureProxy_keeps:
  "addr (configureProxy f tr p) = addr p \<and> trans (configureProxy f tr p) = trans p"
  by (simp add: configureProxy_def SetTLSConfig_def SetExpire_def SetRecursionDesired_def)

text \<open>
  C5. In a stanza whose zone and destinations are read and resolved to \<open>toHosts\<close>: when some
  host has a transport tag other than \<^verbatim>\<open>dns\<close> and \<^verbatim>\<open>tls\<close>, \<^verbatim>\<open>parseStanza\<close> returns the error
  that names the tag and the host of such a host. Whenever \<^verbatim>\<open>parseStanza\<close> returns a
  \<^verbatim>\<open>Forward\<close>, every tag is \<^verbatim>\<open>dns\<close> or \<^verbatim>\<open>tls\<close> and the \<^verbatim>\<open>Forward\<close> holds one proxy per host,
  in the order of the hosts: the proxy \<^verbatim>\<open>NewProxy\<close> makes from the address and the tag of the
  host, with the settings of the stanza applied, so with the address and the transport it
  was made with. And \<^verbatim>\<open>parseStanza\<close> does return a \<^verbatim>\<open>Forward\<close> when every tag is \<^verbatim>\<open>dns\<close> or
  \<^verbatim>\<open>tls\<close>, no block follows the destinations and \<^verbatim>\<open>New()\<close> starts without proxies.
\<close>

theorem unsupported_transport_rejected:
  assumes "Args1 c (from' (New E)) = (True, v, c1)" and "RemainingArgs c1 = (to, c2)"
      and "to \<noteq> []" and "HostPortOrFile E to = Inr toHosts"
  shows "((\<exists>host \<in> set toHosts. \<not> allowedTrans (fst (Transport E host))) \<longrightarrow>
            (\<exists>bad \<in> set toHosts. \<not> allowedTrans (fst (Transport E bad))
               \<and> parseStanza E c = Some (Inl (UnsupportedProtocol (fst (Transport E bad)) bad))))
       \<and> (\<forall>c' f. parseStanza E c = Some (Inr (c', f)) \<longrightarrow>
            (\<forall>host \<in> set toHosts. allowedTrans (fst (Transport E host)))
            \<and> length (proxies f) = length toHosts
            \<and> (\<forall>i < length toHosts.
                 (let tr = fst (Transport E (toHosts ! i));
                      made = NewProxy E (snd (Transport E (toHosts ! i))) tr
                  in proxies f ! i = configureProxy f tr made
                     \<and> addr (proxies f ! i) = addr made
                     \<and> trans (proxies f ! i) = trans made)))
       \<and> ((\<forall>host \<in> set toHosts. allowedTrans (fst (Transport E host)))
            \<and> proxies (New E) = [] \<and> \<not> fst (NextBlock c2) \<longrightarrow>
            (\<exists>f. parseStanza E c = Some (Inr (snd (NextBlock c2), f))))"
proof -
  have rejected: "\<exists>bad \<in> set toHosts. \<not> allowedTrans (fst (Transport E bad))
          \<and> parseStanza E c = Some (Inl (UnsupportedProtocol (fst (Transport E bad)) bad))"
    if "\<exists>host \<in> set toHosts. \<not> allowedTrans (fst (Transport E host))"
  proof -
    from that obtain bad where
        bad: "find (\<lambda>host. \<not> allowedTrans (fst (Transport E host))) toHosts = Some bad"
      by (cases "find (\<lambda>host. \<not> allowedTrans (fst (Transport E host))) toHosts")
         (auto simp: find_None_iff)
    then have mem: "bad \<in> set toHosts" and tag: "\<not> allowedTrans (fst (Transport E bad))"
      by (auto simp: find_Some_iff)
    have "parseStanza E c = Some (Inl (UnsupportedProtocol (fst (Transport E bad)) bad))"
      using assms by (simp add: parseStanza_def makeProxies_unsupported [OF bad])
    with mem tag show ?thesis
      by blast
  qed
  have created: "(\<forall>host \<in> set toHosts. allowedTrans (fst (Transport E host)))
            \<and> length (proxies f) = length toHosts
            \<and> (\<forall>i < length toHosts.
                 (let tr = fst (Transport E (toHosts ! i));
                      made = NewProxy E (snd (Transport E (toHosts ! i))) tr
                  in proxies f ! i = configureProxy f tr made
                     \<and> addr (proxies f ! i) = addr made
                     \<and> trans (proxies f ! i) = trans made))"
    if run: "parseStanza E c = Some (Inr (c', f))" for c' f
    using parseStanza_created [OF run assms(1,2,4)]
    by (simp add: Let_def configureProxy_keeps)
  have returns: "\<exists>f. parseStanza E c = Some (Inr (snd (NextBlock c2), f))"
    if all: "(\<forall>host \<in> set toHosts. allowedTrans (fst (Transport E host)))
                 \<and> proxies (New E) = [] \<and> \<not> fst (NextBlock c2)"
  proof -
    from all have mk: "makeProxies E toHosts ((New E)\<lparr>from' := Normalize E v\<rparr>) []
                   = Inr ((New E)\<lparr>from' := Normalize E v,
                                   proxies := map (\<lambda>host. NewProxy E (snd (Transport E host))
                                                              (fst (Transport E host))) toHosts\<rparr>,
                          map (\<lambda>host. fst (Transport E host)) toHosts)"
      by (simp add: makeProxies_allowed)
    from all have blocks: "parseBlocks E c2 g = Some (Inr (snd (NextBlock c2), g))" for g
      by (simp add: parseBlocks.simps [of E c2 g])
    show ?thesis
      using assms by (simp add: parseStanza_def mk blocks configureProxies_def Let_def)
  qed
  from rejected created returns show ?thesis
    by blast
qed

theorem unsupported_transport_rejected_witness:
  "parseStanza exEnv (onStanza cfgGrpc)
     = Some (Inl (UnsupportedProtocol ''grpc'' ''grpc://10.0.0.2:443''))
   \<and> parseStanza exEnv (onStanza cfgTLS) = Some (Inr ((onStanza cfgTLS)\<lparr>cursor := 13\<rparr>, fTLS))
   \<and> length (proxies fTLS) = 2
   \<and> proxies fTLS ! 0 = configureProxy fTLS ''tls'' (NewProxy exEnv ''9.9.9.9:853'' ''tls'')
   \<and> addr (proxies fTLS ! 0) = ''9.9.9.9:853'' \<and> trans (proxies fTLS ! 0) = ''tls''
   \<and> proxies fTLS ! 1 = configureProxy fTLS ''dns'' (NewProxy exEnv ''10.0.0.1:53'' ''dns'')
   \<and> addr (proxies fTLS ! 1) = ''10.0.0.1:53'' \<and> trans (proxies fTLS ! 1) = ''dns''
   \<and> (\<exists>f. parseStanza exEnv (onStanza cfgPlain) = Some (Inr ((onStanza cfgPlain)\<lparr>cursor := 2\<rparr>, f)))"
proof -
  have tags: "Transport exEnv ''10.0.0.1:53'' = (''dns'', ''10.0.0.1:53'')"
      "Transport exEnv ''grpc://10.0.0.2:443'' = (''grpc'', ''10.0.0.2:443'')"
      "Transport exEnv ''tls://9.9.9.9:853'' = (''tls'', ''9.9.9.9:853'')"
    by (simp_all add: exEnv_def exTransport_def hasPrefix_def)
  have made: "addr (NewProxy exEnv h tr) = h" "trans (NewProxy exEnv h tr) = tr" for h tr
    by (simp_all add: exEnv_def)
  have grpc_args: "Args1 (onStanza cfgGrpc) (from' (New exEnv))
                     = (True, ''.'', (onStanza cfgGrpc)\<lparr>cursor := 1\<rparr>)"
    by code_simp
  have grpc_rest: "RemainingArgs ((onStanza cfgGrpc)\<lparr>cursor := 1\<rparr>)
                     = ([''10.0.0.1:53'', ''grpc://10.0.0.2:443''], (onStanza cfgGrpc)\<lparr>cursor := 3\<rparr>)"
    by code_simp
  have grpc_hosts: "HostPortOrFile exEnv [''10.0.0.1:53'', ''grpc://10.0.0.2:443'']
                      = Inr [''10.0.0.1:53'', ''grpc://10.0.0.2:443'']"
    by (simp add: exEnv_def)
  have first: "parseStanza exEnv (onStanza cfgGrpc)
                 = Some (Inl (UnsupportedProtocol ''grpc'' ''grpc://10.0.0.2:443''))"
    using unsupported_transport_rejected [OF grpc_args grpc_rest _ grpc_hosts]
    by (simp add: tags allowedTrans_def)
  have tls_args: "Args1 (onStanza cfgTLS) (from' (New exEnv))
                    = (True, ''.'', (onStanza cfgTLS)\<lparr>cursor := 1\<rparr>)"
    by code_simp
  have tls_rest: "RemainingArgs ((onStanza cfgTLS)\<lparr>cursor := 1\<rparr>)
                     = ([''tls://9.9.9.9:853'', ''10.0.0.1:53''], (onStanza cfgTLS)\<lparr>cursor := 3\<rparr>)"
    by code_simp
  have tls_hosts: "HostPortOrFile exEnv [''tls://9.9.9.9:853'', ''10.0.0.1:53'']
                      = Inr [''tls://9.9.9.9:853'', ''10.0.0.1:53'']"
    by (simp add: exEnv_def)
  have run: "parseStanza exEnv (onStanza cfgTLS) = Some (Inr ((onStanza cfgTLS)\<lparr>cursor := 13\<rparr>, fTLS))"
    by code_simp
  note result = unsupported_transport_rejected [OF tls_args tls_rest _ tls_hosts,
      THEN conjunct2, THEN conjunct1, rule_format, OF _ run]
  have len: "length (proxies fTLS) = 2"
    using result by simp
  have each: "(let tr = fst (Transport exEnv ([''tls://9.9.9.9:853'', ''10.0.0.1:53''] ! i));
                   made = NewProxy exEnv (snd (Transport exEnv ([''tls://9.9.9.9:853'', ''10.0.0.1:53''] ! i))) tr
               in proxies fTLS ! i = configureProxy fTLS tr made
                  \<and> addr (proxies fTLS ! i) = addr made
                  \<and> trans (proxies fTLS ! i) = trans made)"
    if "i < 2" for i
    using result that by simp
  have second: "proxies fTLS ! 0 = configureProxy fTLS ''tls'' (NewProxy exEnv ''9.9.9.9:853'' ''tls'')
      \<and> addr (proxies fTLS ! 0) = ''9.9.9.9:853'' \<and> trans (proxies fTLS ! 0) = ''tls''"
    using each [of 0] by (simp add: Let_def tags made configureProxy_keeps)
  have third: "proxies fTLS ! 1 = configureProxy fTLS ''dns'' (NewProxy exEnv ''10.0.0.1:53'' ''dns'')
      \<and> addr (proxies fTLS ! 1) = ''10.0.0.1:53'' \<and> trans (proxies fTLS ! 1) = ''dns''"
    using each [of 1] by (simp add: Let_def tags made configureProxy_keeps)
  have plain_args: "Args1 (onStanza cfgPlain) (from' (New exEnv))
                      = (True, ''.'', (onStanza cfgPlain)\<lparr>cursor := 1\<rparr>)"
    by code_simp
  have plain_rest: "RemainingArgs ((onStanza cfgPlain)\<lparr>cursor := 1\<rparr>)
                      = ([''10.0.0.1:53''], (onStanza cfgPlain)\<lparr>cursor := 2\<rparr>)"
    by code_simp
  have plain_hosts: "HostPortOrFile exEnv [''10.0.0.1:53''] = Inr [''10.0.0.1:53'']"
    by (simp add: exEnv_def)
  have plain_block: "NextBlock ((onStanza cfgPlain)\<lparr>cursor := 2\<rparr>)
                       = (False, (onStanza cfgPlain)\<lparr>cursor := 2\<rparr>)"
    by code_simp
  have no_proxies: "proxies (New exEnv) = []"
    by (simp add: exEnv_def exNew_def)
  have fourth: "\<exists>f. parseStanza exEnv (onStanza cfgPlain)
                       = Some (Inr ((onStanza cfgPlain)\<lparr>cursor := 2\<rparr>, f))"
    using unsupported_transport_rejected [OF plain_args plain_rest _ plain_hosts]
    by (simp add: tags allowedTrans_def no_proxies plain_block)
  from first run len second third fourth show ?thesis
    by blast
qed

subsection \<open>The stanzas that setup registers\<close>

lemma setup_loop_all:
  assumes "\<forall>f \<in> set fs. Len f \<le> max'"
  shows "setup_loop fs r
           = (None, r\<lparr>plugins := plugins r @ fs, startupHooks := startupHooks r @ fs,
                      shutdownHooks := shutdownHooks r @ fs\<rparr>)"
  using assms by (induction fs arbitrary: r) simp_all

lemma setup_loop_too_many:
  assumes "f \<in> set fs" and "max' < Len f"
  shows "\<exists>g regs. setup_loop fs r = (Some (plugin_Error ''forward'' (TooManyTOs max' (Len g))), regs)
           \<and> g \<in> set fs \<and> max' < Len g
           \<and> set (startupHooks regs) \<subseteq> set (startupHooks r) \<union> {h \<in> set fs. Len h \<le> max'}"
  using assms
proof (induction fs arbitrary: r)
  case Nil
  then show ?case by simp
next
  case (Cons a fs)
  show ?case
  proof (cases "max' < Len a")
    case True
    then show ?thesis
      by (auto intro!: exI [of _ a])
  next
    case False
    with Cons.prems have "f \<in> set fs"
      by auto
    from Cons.IH [OF this Cons.prems(2), of "r\<lparr>plugins := plugins r @ [a],
                startupHooks := startupHooks r @ [a],
                shutdownHooks := shutdownHooks r @ [a]\<rparr>"]
    obtain g regs where
        "setup_loop fs (r\<lparr>plugins := plugins r @ [a],
                startupHooks := startupHooks r @ [a],
                shutdownHooks := shutdownHooks r @ [a]\<rparr>)
           = (Some (plugin_Error ''forward'' (TooManyTOs max' (Len g))), regs)"
        and "g \<in> set fs" and "max' < Len g"
        and "set (startupHooks regs) \<subseteq> set (startupHooks r) \<union> {a} \<union> {h \<in> set fs. Len h \<le> max'}"
      by auto
    with False show ?thesis
      by (intro exI [of _ g] exI [of _ regs]) auto
  qed
qed

text \<open>
  C1. For the stanzas \<^verbatim>\<open>parseForward\<close> returns: when a stanza has more than \<^verbatim>\<open>max\<close> (15)
  proxies, \<^verbatim>\<open>setup\<close> returns the error that names the limit and the number of proxies of
  such a stanza, and that stanza is not among the startup hooks unless it was there before;
  when every stanza has at most 15 proxies, \<^verbatim>\<open>setup\<close> returns no error and has added the
  plugin, the startup hook and the shutdown hook of every stanza in order. In the loop, a
  stanza with at most 15 proxies passes the check: it is registered and the loop goes on.
\<close>

theorem too_many_destinations_rejected:
  assumes "parseForward E c = Some (Inr fs)"
  shows "(\<forall>f \<in> set fs. max' < Len f \<longrightarrow>
            (\<exists>g regs. setup_forward E c r
                         = Some (Some (PluginError ''forward'' (TooManyTOs 15 (Len g))), regs)
                \<and> g \<in> set fs \<and> 15 < Len g
                \<and> (f \<notin> set (startupHooks r) \<longrightarrow> f \<notin> set (startupHooks regs))))
       \<and> ((\<forall>f \<in> set fs. Len f \<le> max') \<longrightarrow>
            setup_forward E c r
              = Some (None, r\<lparr>plugins := plugins r @ fs, startupHooks := startupHooks r @ fs,
                               shutdownHooks := shutdownHooks r @ fs\<rparr>))
       \<and> (\<forall>f rest r'. Len f \<le> 15 \<longrightarrow>
            setup_loop (f # rest) r'
              = setup_loop rest (r'\<lparr>plugins := plugins r' @ [f],
                                     startupHooks := startupHooks r' @ [f],
                                     shutdownHooks := shutdownHooks r' @ [f]\<rparr>))"
proof (intro conjI ballI impI allI)
  fix f
  assume "f \<in> set fs" and "max' < Len f"
  from setup_loop_too_many [OF this, of r] obtain g regs where
      loop: "setup_loop fs r = (Some (plugin_Error ''forward'' (TooManyTOs max' (Len g))), regs)"
      and g: "g \<in> set fs" "max' < Len g"
      and hooks: "set (startupHooks regs) \<subseteq> set (startupHooks r) \<union> {h \<in> set fs. Len h \<le> max'}"
    by blast
  have "f \<notin> set (startupHooks regs)" if "f \<notin> set (startupHooks r)"
    using that hooks \<open>max' < Len f\<close> by auto
  with loop g assms
  show "\<exists>g regs. setup_forward E c r
                         = Some (Some (PluginError ''forward'' (TooManyTOs 15 (Len g))), regs)
                \<and> g \<in> set fs \<and> 15 < Len g
                \<and> (f \<notin> set (startupHooks r) \<longrightarrow> f \<notin> set (startupHooks regs))"
    by (intro exI [of _ g] exI [of _ regs]) (simp add: setup_forward_def plugin_Error_def max'_def)
next
  assume "\<forall>f \<in> set fs. Len f \<le> max'"
  from setup_loop_all [OF this, of r] assms
  show "setup_forward E c r
              = Some (None, r\<lparr>plugins := plugins r @ fs, startupHooks := startupHooks r @ fs,
                               shutdownHooks := shutdownHooks r @ fs\<rparr>)"
    by (simp add: setup_forward_def)
next
  fix f rest r'
  assume "Len f \<le> 15"
  then show "setup_loop (f # rest) r'
              = setup_loop rest (r'\<lparr>plugins := plugins r' @ [f],
                                     startupHooks := startupHooks r' @ [f],
                                     shutdownHooks := shutdownHooks r' @ [f]\<rparr>)"
    by (simp add: max'_def)
qed

theorem too_many_destinations_rejected_witness:
  "parseForward exEnv (controller cfg16) = Some (Inr [f16]) \<and> Len f16 = 16
   \<and> (\<exists>regs. setup_forward exEnv (controller cfg16) noRegistrations
                = Some (Some (PluginError ''forward'' (TooManyTOs 15 16)), regs)
          \<and> f16 \<notin> set (startupHooks regs))
   \<and> parseForward exEnv (controller cfgBoth) = Some (Inr [fBoth]) \<and> Len fBoth = 1
   \<and> setup_forward exEnv (controller cfgBoth) noRegistrations
       = Some (None, \<lparr>plugins = [fBoth], startupHooks = [fBoth], shutdownHooks = [fBoth]\<rparr>)"
proof -
  have run16: "parseForward exEnv (controller cfg16) = Some (Inr [f16])"
    by code_simp
  have len16: "Len f16 = 16"
    by code_simp
  have runBoth: "parseForward exEnv (controller cfgBoth) = Some (Inr [fBoth])"
    by code_simp
  have lenBoth: "Len fBoth = 1"
    by code_simp
  have "\<exists>regs. setup_forward exEnv (controller cfg16) noRegistrations
                = Some (Some (PluginError ''forward'' (TooManyTOs 15 16)), regs)
          \<and> f16 \<notin> set (startupHooks regs)"
    using too_many_destinations_rejected [OF run16, of noRegistrations] len16
    by (auto simp: max'_def noRegistrations_def)
  moreover have "setup_forward exEnv (controller cfgBoth) noRegistrations
       = Some (None, \<lparr>plugins = [fBoth], startupHooks = [fBoth], shutdownHooks = [fBoth]\<rparr>)"
    using too_many_destinations_rejected [OF runBoth, of noRegistrations] lenBoth
    by (simp add: max'_def noRegistrations_def)
  ultimately show ?thesis
    using run16 len16 runBoth lenBoth by blast
qed

text \<open>
  With two stanzas of which the second has 16 destinations, \<^verbatim>\<open>setup\<close> returns the error
  after it has registered the hooks of the first stanza (the one with index 0).
\<close>

lemma setup_two_stanzas:
  "map_option fst (setup_forward exEnv (controller cfgTwoStanzas) noRegistrations)
     = Some (Some (PluginError ''forward'' (TooManyTOs 15 16)))
   \<and> map_option (map index \<circ> startupHooks \<circ> snd)
        (setup_forward exEnv (controller cfgTwoStanzas) noRegistrations) = Some [0]"
  by code_simp

end
